theory Spec2Isabelle
  imports Complex_Main "HOL-Library.Word" "HOL-Library.Log_Nat"
begin

section \<open>HomeKit sunshade: motion and calibration core of main.c\<close>

text \<open>
  The embedding follows \<^verbatim>\<open>src/main/main.c\<close>. The file-scope variables of the program
  become the fields of one record that every function takes and returns. The three
  collaborators the program only calls (GPIO, the HomeKit notifier, NVS) are modelled by what
  the program can observe of them:
  \<^item> a relay is a boolean "energized"; every \<^verbatim>\<open>relay_write\<close> also appends the resulting pair of
    levels to \<open>relay_trace\<close>, so that the levels between two writes of one function are visible;
  \<^item> \<^verbatim>\<open>homekit_characteristic_notify\<close> appends to the list \<open>notified\<close>;
  \<^item> NVS is a key-value map together with the outcome of each call that the program checks.
  \<^verbatim>\<open>pos_f\<close> and \<^verbatim>\<open>step\<close> are C \<^verbatim>\<open>float\<close>s. A float value is modelled by the rational it
  denotes, and every float operation of the program rounds its exact result to single
  precision with \<open>fl32\<close> (the only non-finite value that can arise, the step
  \<^verbatim>\<open>10000.0f / 0.0f\<close>, is kept as \<open>Step_inf\<close>).
  The two relay pins are taken to be different pins, and \<^verbatim>\<open>xTaskCreate\<close> to succeed (the
  program does not read its result).

  The program takes no lock, and its code runs in several FreeRTOS contexts: the movement
  task, the button callbacks, the HomeKit setters. The model keeps the program counter of the
  movement task in the state and lets the task run from one \<^verbatim>\<open>vTaskDelay\<close> to the next in
  one piece; \<^verbatim>\<open>vTaskDelete\<close> removes it between two such pieces. A setter or a callback
  runs in one piece as well, with one exception that is modelled: the OPEN callback can be
  preempted inside \<^verbatim>\<open>motor_drive_open\<close>, between its two relay writes, on its way through
  \<^verbatim>\<open>calib_start_run\<close>; the field \<open>open_callback_suspended\<close> records that it waits there.
  The model holds one movement task: two calls of \<^verbatim>\<open>start_move_to\<close> that overlap and leave
  two tasks alive are not represented, nor is preemption at other statements.
\<close>

subsection \<open>Types\<close>

type_synonym uint8_t = "8 word"
type_synonym uint32_t = "32 word"
type_synonym int64_t = "64 word"

datatype esp_err_t = ESP_OK | ESP_FAIL | ESP_ERR_INVALID_STATE | ESP_ERR_NVS_NOT_FOUND

text \<open>\<^verbatim>\<open>homekit_value_t\<close> is a tagged union; only two formats are read by the program.\<close>

datatype homekit_value_t = HOMEKIT_BOOL bool | HOMEKIT_UINT8 uint8_t | HOMEKIT_INT int

datatype characteristic =
  CURRENT_POSITION | TARGET_POSITION | POSITION_STATE | HOLD_POSITION | RECALIBRATE_SWITCH

datatype pix_state_t =
  PIX_IDLE | PIX_OPENING | PIX_CLOSING | PIX_STOPPED | PIX_CALIBRATING | PIX_WIFI_WAIT

datatype calib_state_t = CAL_IDLE | CAL_ARMED | CAL_RUNNING

datatype button_event_t =
  button_event_single_press | button_event_double_press | button_event_long_press
  | button_event_tripple_press

datatype gpio_num_t = RELAY_OPEN_GPIO | RELAY_CLOSE_GPIO

datatype nvs_open_mode_t = NVS_READONLY | NVS_READWRITE

text \<open>The value of \<^verbatim>\<open>step\<close> in \<^verbatim>\<open>move_task\<close>: a finite quotient, or +infinity when
  \<^verbatim>\<open>full_travel_ms\<close> is 0.\<close>

datatype step_t = Step rat | Step_inf

text \<open>
  The movement task between two scheduling points. \<open>MOVE_ENTRY\<close>: created by
  \<^verbatim>\<open>xTaskCreate\<close>, nothing executed yet. \<open>MOVE_OPENING\<close>/\<open>MOVE_CLOSING\<close>: blocked in the
  \<^verbatim>\<open>vTaskDelay\<close> at the end of a loop body, holding the local \<^verbatim>\<open>step\<close>.
\<close>

datatype move_pc = MOVE_ENTRY | MOVE_OPENING step_t | MOVE_CLOSING step_t

record move_task_t =
  task_tgt :: uint8_t
  task_pc :: move_pc

record nvs_flash =
  nvs_open_err :: "nvs_open_mode_t \<Rightarrow> esp_err_t"
  nvs_set_err :: esp_err_t
  nvs_commit_err :: esp_err_t
  nvs_entries :: "string \<times> string \<rightharpoonup> uint32_t"

record sunshade =
  relay_open :: bool
  relay_close :: bool
  relay_trace :: "(bool \<times> bool) list"
  pix_state :: pix_state_t
  move_task_handle :: "move_task_t option"
  pos_f :: rat
  full_travel_ms :: uint32_t
  current_position :: uint8_t
  target_position :: uint8_t
  position_state :: uint8_t
  hold_position :: bool
  recalibrate_switch :: bool
  calib_state :: calib_state_t
  calib_start_us :: int64_t
  notified :: "(characteristic \<times> homekit_value_t) list"
  nvs :: nvs_flash
  open_callback_suspended :: bool

subsection \<open>Constants\<close>

definition FULL_TRAVEL_MS_DEFAULT :: uint32_t where
  "FULL_TRAVEL_MS_DEFAULT = 18000"

definition MOVE_TICK_MS :: nat where
  "MOVE_TICK_MS = 100"

definition MID_POSITION :: uint8_t where
  "MID_POSITION = 50"

subsection \<open>Single precision\<close>

text \<open>
  \<open>binexp y\<close> is, for positive \<open>y\<close>, the exponent \<open>e\<close> with \<open>2^e \<le> y < 2^(e+1)\<close>.
  \<open>fl32 x\<close> is the multiple of \<open>2^(e-23)\<close> nearest to \<open>x\<close>, ties to the even multiple: the
  IEEE 754 binary32 value of \<open>x\<close> under round-to-nearest. The exponent range is not limited;
  the magnitudes the program forms are far inside the normal range of binary32. Every float
  operation is taken to be rounded to single precision on its own (\<^verbatim>\<open>FLT_EVAL_METHOD\<close> 0).
\<close>

definition binexp :: "rat \<Rightarrow> int" where
  "binexp y = (if 1 \<le> y then int (floorlog 2 (nat \<lfloor>y\<rfloor>)) - 1
               else - int (floorlog 2 (nat (\<lceil>1 / y\<rceil> - 1))))"

definition round_ties_even :: "rat \<Rightarrow> int" where
  "round_ties_even x =
     (let f = \<lfloor>x\<rfloor>; r = x - of_int f
      in if r < 1 / 2 then f else if 1 / 2 < r then f + 1 else if even f then f else f + 1)"

definition fl32 :: "rat \<Rightarrow> rat" where
  "fl32 x = (if x = 0 then 0
             else (let q = 2 powi (binexp \<bar>x\<bar> - 23)
                   in of_int (round_ties_even (x / q)) * q))"

subsection \<open>Conversions between float and integers\<close>

text \<open>\<^verbatim>\<open>(uint8_t)x\<close> for a float \<^verbatim>\<open>x\<close>: truncation towards zero. Outside 0..255 the C
  conversion is undefined; the model reduces modulo 256 there.\<close>

definition u8_of_float :: "rat \<Rightarrow> uint8_t" where
  "u8_of_float x = (if x < 0 then word_of_int (- \<lfloor>- x\<rfloor>) else word_of_int \<lfloor>x\<rfloor>)"

definition float_of_u8 :: "uint8_t \<Rightarrow> rat" where
  "float_of_u8 w = of_nat (unat w)"

text \<open>\<^verbatim>\<open>(float)n\<close> for a 32-bit unsigned \<^verbatim>\<open>n\<close>: values above \<open>2^24\<close> are rounded.\<close>

definition float_of_u32 :: "uint32_t \<Rightarrow> rat" where
  "float_of_u32 w = fl32 (of_nat (unat w))"

subsection \<open>Relays\<close>

definition relay_write :: "gpio_num_t \<Rightarrow> bool \<Rightarrow> sunshade \<Rightarrow> sunshade" where
  "relay_write pin on s =
     (let s' = (case pin of
                  RELAY_OPEN_GPIO \<Rightarrow> s\<lparr>relay_open := on\<rparr>
                | RELAY_CLOSE_GPIO \<Rightarrow> s\<lparr>relay_close := on\<rparr>)
      in s'\<lparr>relay_trace := relay_trace s' @ [(relay_open s', relay_close s')]\<rparr>)"

definition motor_all_off :: "sunshade \<Rightarrow> sunshade" where
  "motor_all_off s = relay_write RELAY_CLOSE_GPIO False (relay_write RELAY_OPEN_GPIO False s)"

definition motor_drive_open :: "bool \<Rightarrow> sunshade \<Rightarrow> sunshade" where
  "motor_drive_open on s =
     relay_write RELAY_OPEN_GPIO on (if on then relay_write RELAY_CLOSE_GPIO False s else s)"

definition motor_drive_close :: "bool \<Rightarrow> sunshade \<Rightarrow> sunshade" where
  "motor_drive_close on s =
     relay_write RELAY_CLOSE_GPIO on (if on then relay_write RELAY_OPEN_GPIO False s else s)"

definition gpio_init_motor :: "sunshade \<Rightarrow> sunshade" where
  "gpio_init_motor s = motor_all_off s"

subsection \<open>Notifications\<close>

definition homekit_characteristic_notify ::
  "characteristic \<Rightarrow> homekit_value_t \<Rightarrow> sunshade \<Rightarrow> sunshade" where
  "homekit_characteristic_notify ch v s = s\<lparr>notified := notified s @ [(ch, v)]\<rparr>"

subsection \<open>NVS helpers (calibration storage)\<close>

text \<open>\<^verbatim>\<open>nvs_get_u32\<close>: the stored value, or \<open>ESP_ERR_NVS_NOT_FOUND\<close> with the output variable
  left as it was.\<close>

definition nvs_get_u32 :: "nvs_flash \<Rightarrow> string \<Rightarrow> string \<Rightarrow> uint32_t \<Rightarrow> esp_err_t \<times> uint32_t" where
  "nvs_get_u32 nv ns key v0 =
     (case nvs_entries nv (ns, key) of
        None \<Rightarrow> (ESP_ERR_NVS_NOT_FOUND, v0)
      | Some v \<Rightarrow> (ESP_OK, v))"

definition calib_load :: "nvs_flash \<Rightarrow> esp_err_t + uint32_t" where
  "calib_load nv =
     (let err = nvs_open_err nv NVS_READONLY in
      if err \<noteq> ESP_OK then Inl err
      else
        (let (err, v) = nvs_get_u32 nv ''sunshade'' ''full_ms'' 0 in
         if err = ESP_OK \<and> 3000 \<le> v \<and> v \<le> 120000 then Inr v
         else Inl ESP_ERR_INVALID_STATE))"

text \<open>
  \<^verbatim>\<open>calib_save\<close>: \<^verbatim>\<open>ESP_RETURN_ON_ERROR\<close> returns the error of \<^verbatim>\<open>nvs_open\<close> to the caller;
  \<^verbatim>\<open>ESP_ERROR_CHECK\<close> aborts the firmware when \<^verbatim>\<open>nvs_set_u32\<close> or \<^verbatim>\<open>nvs_commit\<close> fails.
  \<open>Inl e\<close> is the abort, \<open>Inr (err, nv')\<close> a return with the storage after the call.
\<close>

datatype panic = ESP_ERROR_CHECK_failed esp_err_t

definition calib_save :: "uint32_t \<Rightarrow> nvs_flash \<Rightarrow> panic + (esp_err_t \<times> nvs_flash)" where
  "calib_save ms nv =
     (let err = nvs_open_err nv NVS_READWRITE in
      if err \<noteq> ESP_OK then Inr (err, nv)
      else if nvs_set_err nv \<noteq> ESP_OK then Inl (ESP_ERROR_CHECK_failed (nvs_set_err nv))
      else
        (let nv' = nv\<lparr>nvs_entries := (nvs_entries nv)((''sunshade'', ''full_ms'') \<mapsto> ms)\<rparr> in
         if nvs_commit_err nv' \<noteq> ESP_OK
         then Inl (ESP_ERROR_CHECK_failed (nvs_commit_err nv'))
         else Inr (ESP_OK, nv')))"

subsection \<open>Movement task\<close>

text \<open>Line 282: \<^verbatim>\<open>(100.0f * (float)MOVE_TICK_MS) / (float)full_travel_ms\<close>.\<close>

definition move_step :: "uint32_t \<Rightarrow> step_t" where
  "move_step full = (if full = 0 then Step_inf
                     else Step (fl32 (fl32 (100 * of_nat MOVE_TICK_MS) / float_of_u32 full)))"

text \<open>Lines 292 to 296: \<^verbatim>\<open>cp = (uint8_t)(pos_f + 0.5f)\<close>, published when it differs.\<close>

definition publish_position :: "sunshade \<Rightarrow> sunshade" where
  "publish_position s =
     (let cp = u8_of_float (fl32 (pos_f s + 1 / 2)) in
      if cp \<noteq> current_position s
      then homekit_characteristic_notify CURRENT_POSITION (HOMEKIT_UINT8 cp)
             (s\<lparr>current_position := cp\<rparr>)
      else s)"

text \<open>One pass through the body of the opening loop, up to its \<^verbatim>\<open>vTaskDelay\<close>.\<close>

definition open_tick :: "step_t \<Rightarrow> sunshade \<Rightarrow> sunshade" where
  "open_tick st s =
     publish_position
       (s\<lparr>pos_f := (case st of
                      Step_inf \<Rightarrow> 100
                    | Step d \<Rightarrow>
                        if fl32 (pos_f s + d) > 100 then 100 else fl32 (pos_f s + d))\<rparr>)"

definition close_tick :: "step_t \<Rightarrow> sunshade \<Rightarrow> sunshade" where
  "close_tick st s =
     publish_position
       (s\<lparr>pos_f := (case st of
                      Step_inf \<Rightarrow> 0
                    | Step d \<Rightarrow>
                        if fl32 (pos_f s - d) < 0 then 0 else fl32 (pos_f s - d))\<rparr>)"

text \<open>Lines 316 to 330: the code after the loops.\<close>

definition move_task_finish :: "uint8_t \<Rightarrow> sunshade \<Rightarrow> sunshade" where
  "move_task_finish tgt s =
     (let s1 = motor_all_off s;
          s2 = homekit_characteristic_notify POSITION_STATE (HOMEKIT_UINT8 2)
                 (s1\<lparr>position_state := 2\<rparr>);
          s3 = s2\<lparr>pos_f := float_of_u8 tgt\<rparr>;
          s4 = (if current_position s3 \<noteq> tgt
                then homekit_characteristic_notify CURRENT_POSITION (HOMEKIT_UINT8 tgt)
                       (s3\<lparr>current_position := tgt\<rparr>)
                else s3)
      in s4\<lparr>pix_state := (if tgt = 0 \<or> tgt = 100 then PIX_IDLE else PIX_STOPPED),
             move_task_handle := None\<rparr>)"

text \<open>The test of a \<^verbatim>\<open>while\<close> loop followed by one body, or by the exit path.\<close>

definition open_loop :: "uint8_t \<Rightarrow> step_t \<Rightarrow> sunshade \<Rightarrow> sunshade" where
  "open_loop tgt st s =
     (if pos_f s < float_of_u8 tgt \<and> position_state s = 1
      then (open_tick st s)\<lparr>move_task_handle :=
              Some \<lparr>task_tgt = tgt, task_pc = MOVE_OPENING st\<rparr>\<rparr>
      else move_task_finish tgt s)"

definition close_loop :: "uint8_t \<Rightarrow> step_t \<Rightarrow> sunshade \<Rightarrow> sunshade" where
  "close_loop tgt st s =
     (if pos_f s > float_of_u8 tgt \<and> position_state s = 0
      then (close_tick st s)\<lparr>move_task_handle :=
              Some \<lparr>task_tgt = tgt, task_pc = MOVE_CLOSING st\<rparr>\<rparr>
      else move_task_finish tgt s)"

text \<open>\<^verbatim>\<open>move_task\<close> from its first statement to the first scheduling point.\<close>

definition move_task_entry :: "uint8_t \<Rightarrow> sunshade \<Rightarrow> sunshade" where
  "move_task_entry tgt s =
     (let st = move_step (full_travel_ms s) in
      if tgt > u8_of_float (pos_f s) then
        open_loop tgt st
          (motor_drive_open True
            ((homekit_characteristic_notify POSITION_STATE (HOMEKIT_UINT8 1)
               (s\<lparr>position_state := 1\<rparr>))\<lparr>pix_state := PIX_OPENING\<rparr>))
      else if tgt < u8_of_float (pos_f s) then
        close_loop tgt st
          (motor_drive_close True
            ((homekit_characteristic_notify POSITION_STATE (HOMEKIT_UINT8 0)
               (s\<lparr>position_state := 0\<rparr>))\<lparr>pix_state := PIX_CLOSING\<rparr>))
      else move_task_finish tgt s)"

text \<open>The scheduler runs the movement task, if there is one, up to its next
  \<^verbatim>\<open>vTaskDelay\<close> or to its end.\<close>

definition move_task_resume :: "sunshade \<Rightarrow> sunshade" where
  "move_task_resume s =
     (case move_task_handle s of
        None \<Rightarrow> s
      | Some t \<Rightarrow>
          (case task_pc t of
             MOVE_ENTRY \<Rightarrow> move_task_entry (task_tgt t) s
           | MOVE_OPENING st \<Rightarrow> open_loop (task_tgt t) st s
           | MOVE_CLOSING st \<Rightarrow> close_loop (task_tgt t) st s))"

definition start_move_to :: "uint8_t \<Rightarrow> sunshade \<Rightarrow> sunshade" where
  "start_move_to target s =
     (let s1 = motor_all_off
                 (if move_task_handle s \<noteq> None then s\<lparr>move_task_handle := None\<rparr> else s)
      in if target = u8_of_float (pos_f s1)
         then (homekit_characteristic_notify POSITION_STATE (HOMEKIT_UINT8 2)
                 (s1\<lparr>position_state := 2\<rparr>))\<lparr>pix_state := PIX_STOPPED\<rparr>
         else s1\<lparr>move_task_handle := Some \<lparr>task_tgt = target, task_pc = MOVE_ENTRY\<rparr>\<rparr>)"

definition start_move_open :: "sunshade \<Rightarrow> sunshade" where
  "start_move_open s =
     start_move_to 100
       (if target_position s \<noteq> 100
        then homekit_characteristic_notify TARGET_POSITION (HOMEKIT_UINT8 100)
               (s\<lparr>target_position := 100\<rparr>)
        else s)"

definition start_move_close :: "sunshade \<Rightarrow> sunshade" where
  "start_move_close s =
     start_move_to 0
       (if target_position s \<noteq> 0
        then homekit_characteristic_notify TARGET_POSITION (HOMEKIT_UINT8 0)
               (s\<lparr>target_position := 0\<rparr>)
        else s)"

definition start_move_mid :: "sunshade \<Rightarrow> sunshade" where
  "start_move_mid s =
     start_move_to MID_POSITION
       (if target_position s \<noteq> MID_POSITION
        then homekit_characteristic_notify TARGET_POSITION (HOMEKIT_UINT8 MID_POSITION)
               (s\<lparr>target_position := MID_POSITION\<rparr>)
        else s)"

subsection \<open>HomeKit setters\<close>

definition target_position_set :: "homekit_value_t \<Rightarrow> sunshade \<Rightarrow> sunshade" where
  "target_position_set v s =
     (case v of
        HOMEKIT_UINT8 t \<Rightarrow>
          (let s1 = start_move_to t (s\<lparr>target_position := t\<rparr>)
           in homekit_characteristic_notify TARGET_POSITION
                (HOMEKIT_UINT8 (target_position s1)) s1)
      | _ \<Rightarrow> s)"

definition hold_position_set :: "homekit_value_t \<Rightarrow> sunshade \<Rightarrow> sunshade" where
  "hold_position_set v s =
     (case v of
        HOMEKIT_BOOL b \<Rightarrow>
          (let s1 = (if b
                     then (homekit_characteristic_notify POSITION_STATE (HOMEKIT_UINT8 2)
                             ((motor_all_off s)\<lparr>position_state := 2\<rparr>))\<lparr>pix_state := PIX_STOPPED\<rparr>
                     else s)
           in homekit_characteristic_notify HOLD_POSITION (HOMEKIT_BOOL False)
                (s1\<lparr>hold_position := False\<rparr>))
      | _ \<Rightarrow> s)"

subsection \<open>Calibration state machine\<close>

definition calib_enter :: "sunshade \<Rightarrow> sunshade" where
  "calib_enter s =
     (if calib_state s \<noteq> CAL_IDLE then s
      else (motor_all_off s)\<lparr>calib_state := CAL_ARMED, pix_state := PIX_CALIBRATING\<rparr>)"

definition calib_cancel :: "sunshade \<Rightarrow> sunshade" where
  "calib_cancel s =
     (if calib_state s = CAL_IDLE then s
      else (motor_all_off s)\<lparr>calib_state := CAL_IDLE, pix_state := PIX_IDLE\<rparr>)"

text \<open>\<open>now\<close> is the value \<^verbatim>\<open>esp_timer_get_time()\<close> returns in the call.\<close>

definition calib_start_run :: "int64_t \<Rightarrow> sunshade \<Rightarrow> sunshade" where
  "calib_start_run now s =
     (if calib_state s \<noteq> CAL_ARMED then s
      else
        (let s1 = s\<lparr>calib_start_us := now, calib_state := CAL_RUNNING\<rparr>;
             s2 = (if move_task_handle s1 \<noteq> None then s1\<lparr>move_task_handle := None\<rparr> else s1);
             s3 = homekit_characteristic_notify POSITION_STATE (HOMEKIT_UINT8 1)
                    (s2\<lparr>position_state := 1\<rparr>)
         in (motor_drive_open True s3)\<lparr>pix_state := PIX_CALIBRATING\<rparr>))"

text \<open>
  \<^verbatim>\<open>calib_start_run\<close> in two pieces, for a callback that is preempted inside
  \<^verbatim>\<open>motor_drive_open(true)\<close>: \<open>calib_start_run_head\<close> runs through line 110 (the write that
  switches the close relay off) and leaves the callback suspended; \<open>calib_start_run_tail\<close>
  is the rest, line 111 (the write that switches the open relay on) and line 441.
\<close>

definition calib_start_run_head :: "int64_t \<Rightarrow> sunshade \<Rightarrow> sunshade" where
  "calib_start_run_head now s =
     (if calib_state s \<noteq> CAL_ARMED then s
      else
        (let s1 = s\<lparr>calib_start_us := now, calib_state := CAL_RUNNING\<rparr>;
             s2 = (if move_task_handle s1 \<noteq> None then s1\<lparr>move_task_handle := None\<rparr> else s1);
             s3 = homekit_characteristic_notify POSITION_STATE (HOMEKIT_UINT8 1)
                    (s2\<lparr>position_state := 1\<rparr>)
         in (relay_write RELAY_CLOSE_GPIO False s3)\<lparr>open_callback_suspended := True\<rparr>))"

definition calib_start_run_tail :: "sunshade \<Rightarrow> sunshade" where
  "calib_start_run_tail s =
     (if open_callback_suspended s
      then (relay_write RELAY_OPEN_GPIO True s)\<lparr>pix_state := PIX_CALIBRATING,
             open_callback_suspended := False\<rparr>
      else s)"

text \<open>
  \<^verbatim>\<open>elapsed\<close> is the signed 64-bit difference of two timer readings, in microseconds.
  It is divided only where it is at least 3000000, where C's truncating division and
  \<open>div\<close> agree; \<^verbatim>\<open>(uint32_t)\<close> keeps the low 32 bits.
\<close>

definition calib_elapsed :: "int64_t \<Rightarrow> sunshade \<Rightarrow> int" where
  "calib_elapsed now s = sint (now - calib_start_us s)"

definition calib_finish_on_stop :: "int64_t \<Rightarrow> sunshade \<Rightarrow> panic + sunshade" where
  "calib_finish_on_stop now s =
     (if calib_state s \<noteq> CAL_RUNNING then Inr s
      else
        (let s1 = motor_all_off s;
             elapsed = calib_elapsed now s1
         in if elapsed < 3 * 1000 * 1000 then Inr (calib_cancel s1)
            else
              (let ms = (word_of_int (elapsed div 1000) :: uint32_t);
                   s2 = s1\<lparr>full_travel_ms := ms\<rparr>
               in case calib_save ms (nvs s2) of
                    Inl e \<Rightarrow> Inl e
                  | Inr (err, nv') \<Rightarrow>
                      (let s3 = s2\<lparr>nvs := nv', pos_f := 100, current_position := 100,
                                   position_state := 2\<rparr>;
                           s4 = homekit_characteristic_notify CURRENT_POSITION (HOMEKIT_UINT8 100) s3;
                           s5 = homekit_characteristic_notify POSITION_STATE (HOMEKIT_UINT8 2) s4
                       in Inr (s5\<lparr>calib_state := CAL_IDLE, pix_state := PIX_IDLE\<rparr>)))))"

definition hk_recal_switch_set :: "homekit_value_t \<Rightarrow> sunshade \<Rightarrow> sunshade" where
  "hk_recal_switch_set v s =
     (let on = (case v of HOMEKIT_BOOL b \<Rightarrow> b | _ \<Rightarrow> False);
          s1 = (if on
                then (if calib_state s = CAL_IDLE then calib_enter s else calib_cancel s)
                else s)
      in homekit_characteristic_notify RECALIBRATE_SWITCH (HOMEKIT_BOOL False)
           (s1\<lparr>recalibrate_switch := False\<rparr>))"

subsection \<open>Buttons\<close>

definition btn_open_callback :: "int64_t \<Rightarrow> button_event_t \<Rightarrow> sunshade \<Rightarrow> sunshade" where
  "btn_open_callback now event s =
     (if event \<noteq> button_event_single_press then s
      else if calib_state s = CAL_ARMED then calib_start_run now s
      else if calib_state s = CAL_RUNNING then s
      else start_move_open s)"

text \<open>The OPEN callback up to the point where it is preempted; on the paths that do not
  reach \<^verbatim>\<open>motor_drive_open(true)\<close> it runs to its end.\<close>

definition btn_open_callback_head :: "int64_t \<Rightarrow> button_event_t \<Rightarrow> sunshade \<Rightarrow> sunshade" where
  "btn_open_callback_head now event s =
     (if event \<noteq> button_event_single_press then s
      else if calib_state s = CAL_ARMED then calib_start_run_head now s
      else if calib_state s = CAL_RUNNING then s
      else start_move_open s)"

definition btn_close_callback :: "button_event_t \<Rightarrow> sunshade \<Rightarrow> sunshade" where
  "btn_close_callback event s =
     (if event \<noteq> button_event_single_press then s
      else if calib_state s \<noteq> CAL_IDLE then s
      else start_move_close s)"

definition btn_stop_callback :: "int64_t \<Rightarrow> button_event_t \<Rightarrow> sunshade \<Rightarrow> panic + sunshade" where
  "btn_stop_callback now event s =
     (case event of
        button_event_single_press \<Rightarrow>
          (if calib_state s = CAL_RUNNING then calib_finish_on_stop now s
           else Inr (hold_position_set (HOMEKIT_BOOL True) s))
      | button_event_double_press \<Rightarrow>
          (if calib_state s \<noteq> CAL_IDLE then Inr s else Inr (start_move_mid s))
      | button_event_long_press \<Rightarrow>
          Inr (if calib_state s = CAL_IDLE then calib_enter s else calib_cancel s)
      | _ \<Rightarrow> Inr s)"

subsection \<open>Start-up\<close>

text \<open>The initialisers of the file-scope variables, over a given NVS content.\<close>

definition static_init :: "nvs_flash \<Rightarrow> sunshade" where
  "static_init nv =
     \<lparr>relay_open = False, relay_close = False, relay_trace = [],
      pix_state = PIX_WIFI_WAIT, move_task_handle = None, pos_f = 0,
      full_travel_ms = FULL_TRAVEL_MS_DEFAULT, current_position = 0, target_position = 0,
      position_state = 2, hold_position = False, recalibrate_switch = False,
      calib_state = CAL_IDLE, calib_start_us = 0, notified = [], nvs = nv,
      open_callback_suspended = False\<rparr>"

text \<open>The part of \<^verbatim>\<open>app_main\<close> that touches the state above: the relays are switched off,
  the status pixel is set, the calibration is loaded.\<close>

definition app_main :: "nvs_flash \<Rightarrow> sunshade" where
  "app_main nv =
     (let s = (gpio_init_motor (static_init nv))\<lparr>pix_state := PIX_WIFI_WAIT\<rparr>
      in case calib_load (nvs s) of
           Inr nvs_ms \<Rightarrow> s\<lparr>full_travel_ms := nvs_ms\<rparr>
         | Inl err \<Rightarrow> s)"

subsection \<open>Runs\<close>

text \<open>
  What can happen to the device after start-up, one entry at a time: a setter called by
  the HomeKit server, a button callback, or the scheduler resuming the movement task, each
  with the timer reading of that moment. An entry runs to its end before the next begins,
  except for \<open>Btn_open_cut\<close>: the OPEN callback runs until it is preempted between the two
  relay writes of \<^verbatim>\<open>motor_drive_open\<close>, other entries follow, and \<open>Btn_open_rest\<close> lets the
  suspended callback run to its end.
\<close>

datatype event =
  Set_target homekit_value_t
  | Set_hold homekit_value_t
  | Set_recalibrate homekit_value_t
  | Btn_open button_event_t
  | Btn_close button_event_t
  | Btn_stop button_event_t
  | Task_runs
  | Btn_open_cut button_event_t
  | Btn_open_rest

definition dispatch :: "int64_t \<times> event \<Rightarrow> sunshade \<Rightarrow> panic + sunshade" where
  "dispatch te s =
     (case te of (now, ev) \<Rightarrow>
        (case ev of
           Set_target v \<Rightarrow> Inr (target_position_set v s)
         | Set_hold v \<Rightarrow> Inr (hold_position_set v s)
         | Set_recalibrate v \<Rightarrow> Inr (hk_recal_switch_set v s)
         | Btn_open e \<Rightarrow> Inr (btn_open_callback now e s)
         | Btn_close e \<Rightarrow> Inr (btn_close_callback e s)
         | Btn_stop e \<Rightarrow> btn_stop_callback now e s
         | Task_runs \<Rightarrow> Inr (move_task_resume s)
         | Btn_open_cut e \<Rightarrow> Inr (btn_open_callback_head now e s)
         | Btn_open_rest \<Rightarrow> Inr (calib_start_run_tail s)))"

text \<open>The entries that run in one piece.\<close>

fun uncut :: "int64_t \<times> event \<Rightarrow> bool" where
  "uncut (now, Btn_open_cut e) = False"
| "uncut (now, Btn_open_rest) = False"
| "uncut (now, ev) = True"

fun run :: "(int64_t \<times> event) list \<Rightarrow> sunshade \<Rightarrow> panic + sunshade" where
  "run [] s = Inr s"
| "run (te # tes) s = (case dispatch te s of Inl e \<Rightarrow> Inl e | Inr s' \<Rightarrow> run tes s')"

subsection \<open>Predicates and concrete states used below\<close>

text \<open>The interlock: the two relays are not energized together, now or after any earlier
  write.\<close>

definition interlock :: "sunshade \<Rightarrow> bool" where
  "interlock s =
     (\<not> (relay_open s \<and> relay_close s) \<and> list_all (\<lambda>(a, b). \<not> (a \<and> b)) (relay_trace s))"

definition momentary_clear :: "sunshade \<Rightarrow> bool" where
  "momentary_clear s = (\<not> hold_position s \<and> \<not> recalibrate_switch s)"

text \<open>The state of an opening run towards 100 with step 1, after its \<open>k\<close>-th loop body.\<close>

definition opening_at :: "nat \<Rightarrow> sunshade \<Rightarrow> bool" where
  "opening_at k s =
     (pos_f s = of_nat k \<and> position_state s = 1 \<and> relay_open s \<and> \<not> relay_close s
      \<and> current_position s = of_nat k
      \<and> move_task_handle s = Some \<lparr>task_tgt = 100, task_pc = MOVE_OPENING (Step 1)\<rparr>)"


text \<open>Storage in which every call succeeds and nothing is stored; the same with a stored
  duration; the same where the namespace cannot be opened for writing; the same where the
  namespace opens and the write fails, or the commit.\<close>

definition nvs_blank :: nvs_flash where
  "nvs_blank = \<lparr>nvs_open_err = (\<lambda>m. ESP_OK), nvs_set_err = ESP_OK, nvs_commit_err = ESP_OK,
     nvs_entries = Map.empty\<rparr>"

definition nvs_stored :: "uint32_t \<Rightarrow> nvs_flash" where
  "nvs_stored v = nvs_blank\<lparr>nvs_entries := [(''sunshade'', ''full_ms'') \<mapsto> v]\<rparr>"

definition nvs_readonly :: nvs_flash where
  "nvs_readonly = nvs_blank\<lparr>nvs_open_err :=
     (\<lambda>m. case m of NVS_READONLY \<Rightarrow> ESP_OK | NVS_READWRITE \<Rightarrow> ESP_FAIL)\<rparr>"

definition nvs_write_fails :: nvs_flash where
  "nvs_write_fails = nvs_blank\<lparr>nvs_set_err := ESP_FAIL\<rparr>"

definition nvs_commit_fails :: nvs_flash where
  "nvs_commit_fails = nvs_blank\<lparr>nvs_commit_err := ESP_FAIL\<rparr>"

text \<open>After start-up, a long press on STOP arms the calibration; an OPEN press at timer
  reading 0 starts the run.\<close>

definition calib_armed_state :: "nvs_flash \<Rightarrow> sunshade" where
  "calib_armed_state nv = calib_enter (app_main nv)"

definition calib_running_state :: "nvs_flash \<Rightarrow> sunshade" where
  "calib_running_state nv = btn_open_callback 0 button_event_single_press (calib_armed_state nv)"

text \<open>With a stored duration of 20000 ms the step is 1/2: one tick after target 100 was set
  the position is 0.5 and the published position is 1.\<close>

definition half_open_state :: sunshade where
  "half_open_state =
     move_task_resume (target_position_set (HOMEKIT_UINT8 100) (app_main (nvs_stored 20000)))"

text \<open>With a stored duration of 10000 ms: OPEN pressed, three ticks done.\<close>

definition third_tick_state :: sunshade where
  "third_tick_state = (move_task_resume ^^ 3) (start_move_open (app_main (nvs_stored 10000)))"


text \<open>Target 100, two ticks, then target 0 and the first tick of the new task.\<close>

definition reversal_events :: "(int64_t \<times> event) list" where
  "reversal_events =
     [(0, Set_target (HOMEKIT_UINT8 100)), (100000, Task_runs), (200000, Task_runs),
      (250000, Set_target (HOMEKIT_UINT8 0)), (300000, Task_runs)]"

definition reversal_state :: sunshade where
  "reversal_state =
     move_task_resume (target_position_set (HOMEKIT_UINT8 0)
       (move_task_resume (move_task_resume
         (target_position_set (HOMEKIT_UINT8 100) (app_main nvs_blank)))))"

text \<open>
  With a stored duration of 10000 ms: OPEN is pressed and the shade opens for one tick
  (position 1); a long press on STOP arms the calibration; OPEN is pressed again and its
  callback is preempted between the two relay writes of \<^verbatim>\<open>motor_drive_open\<close>; the HomeKit
  server sets target 0 and the new movement task runs its first piece; the OPEN callback runs
  to its end.
\<close>

definition race_events :: "(int64_t \<times> event) list" where
  "race_events =
     [(0, Btn_open button_event_single_press), (100000, Task_runs),
      (200000, Btn_stop button_event_long_press),
      (300000, Btn_open_cut button_event_single_press),
      (300010, Set_target (HOMEKIT_UINT8 0)), (300020, Task_runs),
      (300030, Btn_open_rest)]"

definition race_armed_state :: sunshade where
  "race_armed_state =
     calib_enter (move_task_resume
       (btn_open_callback 0 button_event_single_press (app_main (nvs_stored 10000))))"

definition race_state :: sunshade where
  "race_state =
     calib_start_run_tail (move_task_resume (target_position_set (HOMEKIT_UINT8 0)
       (btn_open_callback_head 300000 button_event_single_press race_armed_state)))"

section \<open>Auxiliary facts\<close>

lemmas relay_defs = relay_write_def motor_all_off_def motor_drive_open_def motor_drive_close_def
  homekit_characteristic_notify_def

lemmas move_defs = move_task_resume_def move_task_entry_def open_loop_def close_loop_def
  open_tick_def close_tick_def publish_position_def move_task_finish_def move_step_def
  start_move_to_def target_position_set_def MOVE_TICK_MS_def float_of_u8_def u8_of_float_def
  float_of_u32_def

lemmas calib_defs = calib_enter_def calib_cancel_def calib_start_run_def calib_finish_on_stop_def
  calib_save_def calib_elapsed_def btn_open_callback_def

lemmas fixture_defs = nvs_blank_def nvs_stored_def nvs_readonly_def calib_armed_state_def
  calib_running_state_def app_main_def static_init_def gpio_init_motor_def calib_load_def
  nvs_get_u32_def FULL_TRAVEL_MS_DEFAULT_def

subsection \<open>Floor of rational numerals\<close>

lemma floor_rat_numeral_div: "\<lfloor>numeral a / numeral b :: rat\<rfloor> = numeral a div numeral b"
  using floor_divide_of_int_eq [of "numeral a" "numeral b", where ?'a = rat] by simp

lemma floor_rat_one_div: "\<lfloor>1 / numeral b :: rat\<rfloor> = 1 div numeral b"
  using floor_divide_of_int_eq [of 1 "numeral b", where ?'a = rat] by simp

subsection \<open>Rounding to single precision\<close>

lemma pow2_less_imp: "(2::rat) powi a < 2 powi b \<Longrightarrow> a < b"
  using power_int_increasing [of b a "2::rat"] by (cases "a < b") auto

lemma binexp_bounds:
  assumes "0 < y"
  shows "2 powi binexp y \<le> y \<and> y < 2 powi (binexp y + 1)"
proof (cases "1 \<le> y")
  case True
  define n where "n = nat \<lfloor>y\<rfloor>"
  define k where "k = floorlog 2 n"
  have n0: "0 < n" using True by (simp add: n_def)
  have ny: "of_nat n \<le> y" "y < of_nat n + 1"
    using True by (simp_all add: n_def) linarith+
  from floorlog_bounds [of n 2] n0 have b: "2 ^ (k - 1) \<le> n" "n < 2 ^ k"
    by (simp_all add: k_def)
  have k1: "1 \<le> k" using b(2) n0 by (cases k) simp_all
  have e: "binexp y = int (k - 1)" using True k1 by (simp add: binexp_def n_def k_def)
  have p: "(2::rat) ^ (k - 1) \<le> of_nat n"
  proof -
    from b(1) have "(of_nat (2 ^ (k - 1)) :: rat) \<le> of_nat n" by (simp only: of_nat_le_iff)
    then show ?thesis by simp
  qed
  have "2 powi binexp y = (2::rat) ^ (k - 1)" by (simp only: e power_int_of_nat)
  also note p
  also note ny(1)
  finally have lo: "2 powi binexp y \<le> y" .
  have "Suc n \<le> 2 ^ k" using b(2) by simp
  then have "(of_nat (Suc n) :: rat) \<le> of_nat (2 ^ k)" by (simp only: of_nat_le_iff)
  then have "of_nat n + 1 \<le> (2::rat) ^ k" by simp
  then have "y < 2 ^ k" using ny(2) by linarith
  moreover have "binexp y + 1 = int k" using e k1 by simp
  ultimately have hi: "y < 2 powi (binexp y + 1)" by simp
  from lo hi show ?thesis ..
next
  case False
  define m where "m = \<lceil>1 / y\<rceil>"
  define n where "n = nat (m - 1)"
  define k where "k = floorlog 2 n"
  have y1: "1 < 1 / y" using False assms by simp
  have m2: "2 \<le> m" using y1 unfolding m_def by linarith
  have my: "1 / y \<le> of_int m" "of_int m - 1 < 1 / y"
    unfolding m_def by linarith+
  have n0: "0 < n" using m2 by (simp add: n_def)
  have nm: "of_nat n = (of_int m :: rat) - 1" using m2 by (simp add: n_def)
  from floorlog_bounds [of n 2] n0 have b: "2 ^ (k - 1) \<le> n" "n < 2 ^ k"
    by (simp_all add: k_def)
  have k1: "1 \<le> k" using b(2) n0 by (cases k) simp_all
  have e: "binexp y = - int k" using False by (simp add: binexp_def n_def k_def m_def)
  have "Suc n \<le> 2 ^ k" using b(2) by simp
  then have "(of_nat (Suc n) :: rat) \<le> of_nat (2 ^ k)" by (simp only: of_nat_le_iff)
  then have "of_nat n + 1 \<le> (2::rat) ^ k" by simp
  then have "1 / y \<le> 2 ^ k" using my(1) nm by linarith
  then have "1 \<le> 2 ^ k * y" using assms by (simp add: field_simps)
  then have lo: "2 powi binexp y \<le> y"
    unfolding e by (simp add: power_int_minus field_simps)
  have "(2::rat) ^ (k - 1) \<le> of_nat n"
  proof -
    from b(1) have "(of_nat (2 ^ (k - 1)) :: rat) \<le> of_nat n" by (simp only: of_nat_le_iff)
    then show ?thesis by simp
  qed
  then have "2 ^ (k - 1) < 1 / y" using my(2) nm by linarith
  then have "2 ^ (k - 1) * y < 1" using assms by (simp add: field_simps)
  moreover have "binexp y + 1 = - int (k - 1)" using e k1 by simp
  ultimately have hi: "y < 2 powi (binexp y + 1)"
    by (simp add: power_int_minus field_simps)
  from lo hi show ?thesis ..
qed


lemma round_ties_even_int [simp]: "round_ties_even (of_int n) = n"
  by (simp add: round_ties_even_def)


text \<open>Values with a significand of at most 24 bits are not changed.\<close>

lemma fl32_exact:
  assumes "\<bar>m\<bar> < 2 ^ 24"
  shows "fl32 (of_int m * 2 powi j) = of_int m * 2 powi j"
proof (cases "m = 0")
  case True
  then show ?thesis by (simp add: fl32_def)
next
  case False
  define x :: rat where "x = of_int m * 2 powi j"
  have x0: "x \<noteq> 0" using False by (simp add: x_def)
  have ax: "\<bar>x\<bar> = of_int \<bar>m\<bar> * 2 powi j" by (simp add: x_def abs_mult power_int_abs)
  define e where "e = binexp \<bar>x\<bar>"
  from binexp_bounds [of "\<bar>x\<bar>"] x0 have b: "2 powi e \<le> \<bar>x\<bar>" by (simp add: e_def)
  have "(of_int \<bar>m\<bar> :: rat) < of_int (2 ^ 24)" using assms by (simp only: of_int_less_iff)
  then have "(of_int \<bar>m\<bar> :: rat) < 2 ^ 24" by simp
  then have "\<bar>x\<bar> < 2 ^ 24 * 2 powi j" unfolding ax by (simp)
  also have "\<dots> = 2 powi (24 + j)" by (simp add: power_int_add)
  finally have "(2::rat) powi e < 2 powi (24 + j)" using b by simp
  then have "e < 24 + j" by (rule pow2_less_imp)
  then have ej: "e - 23 \<le> j" by simp
  define d where "d = nat (j - (e - 23))"
  have jd: "j = (e - 23) + int d" using ej by (simp add: d_def)
  have q: "x / 2 powi (e - 23) = of_int (m * 2 ^ d)"
    unfolding x_def jd by (simp add: power_int_add)
  have "fl32 x = of_int (round_ties_even (x / 2 powi (e - 23))) * 2 powi (e - 23)"
    using x0 by (simp add: fl32_def e_def Let_def)
  also have "\<dots> = of_int (m * 2 ^ d) * 2 powi (e - 23)"
    unfolding q by (simp only: round_ties_even_int)
  also have "\<dots> = x" unfolding x_def jd by (simp add: power_int_add)
  finally show ?thesis unfolding x_def .
qed

lemma fl32_of_int: "\<bar>m\<bar> < 2 ^ 24 \<Longrightarrow> fl32 (of_int m) = of_int m"
  using fl32_exact [of m 0] by simp

lemma fl32_of_nat: "n < 2 ^ 24 \<Longrightarrow> fl32 (of_nat n) = of_nat n"
  using fl32_of_int [of "int n"] by simp

lemma fl32_half_int: "\<bar>m\<bar> < 2 ^ 24 \<Longrightarrow> fl32 (of_int m / 2) = of_int m / 2"
  using fl32_exact [of m "-1"] by (simp add: power_int_minus field_simps)

lemma fl32_0 [simp]: "fl32 0 = 0"
  by (simp add: fl32_def)

lemma fl32_1 [simp]: "fl32 1 = 1"
  using fl32_of_int [of 1] by simp

lemma fl32_one_half [simp]: "fl32 (1 / 2) = 1 / 2"
  using fl32_half_int [of 1] by simp

lemma fl32_numeral: "(numeral n :: int) < 2 ^ 24 \<Longrightarrow> fl32 (numeral n) = numeral n"
  using fl32_of_int [of "numeral n"] by simp

lemma fl32_numeral_half:
  "(numeral n :: int) < 2 ^ 24 \<Longrightarrow> fl32 (numeral n / 2) = numeral n / 2"
  using fl32_half_int [of "numeral n"] by simp



lemma u8_of_float_half: "u8_of_float (fl32 (of_nat n + 1 / 2)) = of_nat n" if "n < 2 ^ 23"
proof -
  have "\<bar>int (2 * n + 1)\<bar> < 2 ^ 24" using that by simp
  from fl32_half_int [OF this] have "fl32 (of_nat n + 1 / 2) = of_nat n + 1 / 2"
    by (simp add: field_simps)
  moreover have "\<lfloor>(of_nat n :: rat) + 1 / 2\<rfloor> = int n"
    by (rule floor_unique) simp_all
  moreover have "\<not> (of_nat n :: rat) + 1 / 2 < 0"
    by (simp add: not_less)
  ultimately show ?thesis by (simp add: u8_of_float_def)
qed

subsection \<open>Runs preserve what every entry preserves\<close>

lemma run_invariant:
  assumes step: "\<And>te s s'. Q te \<Longrightarrow> P s \<Longrightarrow> dispatch te s = Inr s' \<Longrightarrow> P s'"
  shows "list_all Q tes \<Longrightarrow> P s \<Longrightarrow> run tes s = Inr s' \<Longrightarrow> P s'"
proof (induction tes arbitrary: s)
  case Nil
  then show ?case by simp
next
  case (Cons te tes)
  then obtain s1 where d: "dispatch te s = Inr s1" and r: "run tes s1 = Inr s'"
    by (auto split: sum.splits)
  from Cons.prems(1) have q: "Q te" "list_all Q tes" by simp_all
  from step [OF q(1) Cons.prems(2) d] have "P s1" .
  from q(2) this r show ?case by (rule Cons.IH)
qed

subsection \<open>Fields of the concrete states\<close>

lemma app_main_fields:
  "calib_state (app_main nv) = CAL_IDLE" "pos_f (app_main nv) = 0"
  "target_position (app_main nv) = 0" "notified (app_main nv) = []"
  by (simp_all add: app_main_def static_init_def gpio_init_motor_def relay_defs Let_def
      split: sum.splits)

lemma app_main_stored_10000: "full_travel_ms (app_main (nvs_stored 10000)) = 10000"
  by (simp add: fixture_defs relay_defs Let_def)

lemma armed_fields: "calib_state (calib_armed_state nv) = CAL_ARMED"
  by (simp add: calib_armed_state_def calib_enter_def app_main_fields)

lemma running_fields:
  "calib_state (calib_running_state nv) = CAL_RUNNING"
  "calib_start_us (calib_running_state nv) = 0"
  "nvs (calib_running_state nv) = nv"
  "move_task_handle (calib_running_state nv) = None"
  "relay_open (calib_running_state nv)"
  "notified (calib_running_state nv) = [(POSITION_STATE, HOMEKIT_UINT8 1)]"
  by (simp_all add: fixture_defs calib_defs relay_defs Let_def split: sum.splits)

lemma half_open_fields:
  "pos_f half_open_state = 1 / 2"
  "current_position half_open_state = 1"
  "full_travel_ms half_open_state = 20000"
  "position_state half_open_state = 1"
  "relay_open half_open_state"
  by (simp_all add: half_open_state_def fixture_defs relay_defs move_defs Let_def
       floor_rat_one_div floor_rat_numeral_div fl32_numeral)

lemma reversal_run: "run reversal_events (app_main nvs_blank) = Inr reversal_state"
  by (simp add: reversal_events_def reversal_state_def dispatch_def)

section \<open>The interlock\<close>

lemma interlock_frame:
  "relay_open s' = relay_open s \<Longrightarrow> relay_close s' = relay_close s \<Longrightarrow>
   relay_trace s' = relay_trace s \<Longrightarrow> interlock s \<Longrightarrow> interlock s'"
  by (simp add: interlock_def)

lemma interlock_motor_all_off: "interlock s \<Longrightarrow> interlock (motor_all_off s)"
  by (simp add: interlock_def relay_defs)

lemma interlock_motor_drive_open: "interlock s \<Longrightarrow> interlock (motor_drive_open b s)"
  by (simp add: interlock_def relay_defs)

lemma interlock_motor_drive_close: "interlock s \<Longrightarrow> interlock (motor_drive_close b s)"
  by (simp add: interlock_def relay_defs)

lemma interlock_start_move_to: "interlock s \<Longrightarrow> interlock (start_move_to t s)"
  by (simp add: interlock_def start_move_to_def relay_defs Let_def)

lemma interlock_finish: "interlock s \<Longrightarrow> interlock (move_task_finish t s)"
  by (simp add: interlock_def move_task_finish_def relay_defs Let_def)

lemma interlock_open_loop: "interlock s \<Longrightarrow> interlock (open_loop t st s)"
  by (simp add: interlock_def open_loop_def open_tick_def publish_position_def
      move_task_finish_def relay_defs Let_def)

lemma interlock_close_loop: "interlock s \<Longrightarrow> interlock (close_loop t st s)"
  by (simp add: interlock_def close_loop_def close_tick_def publish_position_def
      move_task_finish_def relay_defs Let_def)

lemma interlock_entry:
  assumes "interlock s"
  shows "interlock (move_task_entry t s)"
proof -
  have up: "interlock ((homekit_characteristic_notify POSITION_STATE v
                 (s\<lparr>position_state := w\<rparr>))\<lparr>pix_state := p\<rparr>)" for v w p
    using assms
    by (rule interlock_frame [rotated 3]) (simp_all add: homekit_characteristic_notify_def)
  show ?thesis
    unfolding move_task_entry_def Let_def
    by (simp add: interlock_open_loop interlock_close_loop interlock_finish
        interlock_motor_drive_open interlock_motor_drive_close up assms)
qed

lemma interlock_resume: "interlock s \<Longrightarrow> interlock (move_task_resume s)"
  by (simp add: move_task_resume_def interlock_entry interlock_open_loop interlock_close_loop
      split: option.splits move_pc.splits)

lemma interlock_target_position_set: "interlock s \<Longrightarrow> interlock (target_position_set v s)"
proof (cases v)
  case (HOMEKIT_UINT8 t)
  assume i: "interlock s"
  have "interlock (s\<lparr>target_position := t\<rparr>)"
    using i by (rule interlock_frame [rotated 3]) simp_all
  then have "interlock (start_move_to t (s\<lparr>target_position := t\<rparr>))"
    by (rule interlock_start_move_to)
  then show ?thesis
    unfolding target_position_set_def HOMEKIT_UINT8 Let_def homekit_value_t.case
    by (rule interlock_frame [rotated 3]) (simp_all add: homekit_characteristic_notify_def)
qed (simp_all add: target_position_set_def)

lemma interlock_hold_position_set: "interlock s \<Longrightarrow> interlock (hold_position_set v s)"
  by (cases v) (simp_all add: hold_position_set_def interlock_def relay_defs Let_def)

lemma interlock_calib_enter: "interlock s \<Longrightarrow> interlock (calib_enter s)"
  by (simp add: calib_enter_def interlock_def relay_defs)

lemma interlock_calib_cancel: "interlock s \<Longrightarrow> interlock (calib_cancel s)"
  by (simp add: calib_cancel_def interlock_def relay_defs)

lemma interlock_calib_start_run: "interlock s \<Longrightarrow> interlock (calib_start_run now s)"
  by (simp add: calib_start_run_def interlock_def relay_defs Let_def)

lemma interlock_calib_finish:
  "interlock s \<Longrightarrow> calib_finish_on_stop now s = Inr s' \<Longrightarrow> interlock s'"
  by (auto simp add: calib_finish_on_stop_def calib_cancel_def interlock_def relay_defs Let_def
      split: if_splits sum.splits prod.splits)

lemma interlock_recal: "interlock s \<Longrightarrow> interlock (hk_recal_switch_set v s)"
proof -
  assume i: "interlock s"
  let ?on = "case v of HOMEKIT_BOOL b \<Rightarrow> b | _ \<Rightarrow> False"
  let ?s1 = "if ?on then (if calib_state s = CAL_IDLE then calib_enter s else calib_cancel s)
             else s"
  have "interlock ?s1" using i by (simp add: interlock_calib_enter interlock_calib_cancel)
  then show ?thesis
    unfolding hk_recal_switch_set_def Let_def
    by (rule interlock_frame [rotated 3]) (simp_all add: homekit_characteristic_notify_def)
qed

lemma interlock_start_move_open: "interlock s \<Longrightarrow> interlock (start_move_open s)"
  unfolding start_move_open_def
  by (rule interlock_start_move_to) (simp add: interlock_def homekit_characteristic_notify_def)

lemma interlock_start_move_close: "interlock s \<Longrightarrow> interlock (start_move_close s)"
  unfolding start_move_close_def
  by (rule interlock_start_move_to) (simp add: interlock_def homekit_characteristic_notify_def)

lemma interlock_start_move_mid: "interlock s \<Longrightarrow> interlock (start_move_mid s)"
  unfolding start_move_mid_def
  by (rule interlock_start_move_to) (simp add: interlock_def homekit_characteristic_notify_def)

lemma interlock_btn_open: "interlock s \<Longrightarrow> interlock (btn_open_callback now e s)"
  by (simp add: btn_open_callback_def interlock_calib_start_run interlock_start_move_open)

lemma interlock_btn_close: "interlock s \<Longrightarrow> interlock (btn_close_callback e s)"
  by (simp add: btn_close_callback_def interlock_start_move_close)

lemma interlock_btn_stop:
  "interlock s \<Longrightarrow> btn_stop_callback now e s = Inr s' \<Longrightarrow> interlock s'"
  by (cases e)
     (auto simp add: btn_stop_callback_def interlock_calib_finish interlock_hold_position_set
        interlock_start_move_mid interlock_calib_enter interlock_calib_cancel split: if_splits)

lemma interlock_dispatch:
  "uncut te \<Longrightarrow> interlock s \<Longrightarrow> dispatch te s = Inr s' \<Longrightarrow> interlock s'"
  by (cases te, cases "snd te")
     (auto simp add: dispatch_def interlock_target_position_set interlock_hold_position_set
        interlock_recal interlock_btn_open interlock_btn_close interlock_btn_stop
        interlock_resume)

lemma interlock_app_main: "interlock (app_main nv)"
  by (simp add: app_main_def gpio_init_motor_def static_init_def interlock_def relay_defs Let_def
      split: sum.splits)

lemma interlock_run:
  assumes "list_all uncut tes" and "run tes (app_main nv) = Inr s"
  shows "interlock s"
  using interlock_dispatch assms(1) interlock_app_main assms(2) by (rule run_invariant)

text \<open>
  As long as no callback is preempted between two relay writes, the relays are never
  energized together, also not between the writes of one function; and \<^verbatim>\<open>start_move_to\<close>
  leaves both relays de-energized and no task but the new one.
\<close>

lemma uncut_runs_keep_interlock:
  assumes "list_all uncut tes" and "run tes (app_main nv) = Inr s"
  shows "\<not> (relay_open s \<and> relay_close s)
       \<and> (\<forall>(a, b) \<in> set (relay_trace s). \<not> (a \<and> b))
       \<and> \<not> relay_open (start_move_to t s) \<and> \<not> relay_close (start_move_to t s)
       \<and> (move_task_handle (start_move_to t s) = None
            \<or> move_task_handle (start_move_to t s) = Some \<lparr>task_tgt = t, task_pc = MOVE_ENTRY\<rparr>)
       \<and> relay_trace (start_move_to t s) = relay_trace s @ [(False, relay_close s), (False, False)]"
proof -
  from assms have "interlock s" by (rule interlock_run)
  then have "\<not> (relay_open s \<and> relay_close s)" "\<forall>(a, b) \<in> set (relay_trace s). \<not> (a \<and> b)"
    by (simp_all add: interlock_def list_all_iff)
  moreover have "\<not> relay_open (start_move_to t s)" "\<not> relay_close (start_move_to t s)"
    "move_task_handle (start_move_to t s) = None
       \<or> move_task_handle (start_move_to t s) = Some \<lparr>task_tgt = t, task_pc = MOVE_ENTRY\<rparr>"
    "relay_trace (start_move_to t s) = relay_trace s @ [(False, relay_close s), (False, False)]"
    by (simp_all add: start_move_to_def relay_defs Let_def)
  ultimately show ?thesis by blast
qed

section \<open>Calibration\<close>

text \<open>
  C9. The transition from Armed to Running (an OPEN press while armed, which is
  \<^verbatim>\<open>calib_start_run\<close>) records the timer reading as start timestamp, leaves no movement task,
  switches the close relay off and the open relay on, sets and notifies position state 1
  (opening), and leaves \<open>target_position\<close> unchanged; the only notification is that of the
  position state.
\<close>

theorem calib_start_run_effects:
  assumes "calib_state s = CAL_ARMED"
  shows "btn_open_callback now button_event_single_press s = calib_start_run now s
    \<and> calib_start_us (calib_start_run now s) = now
    \<and> calib_state (calib_start_run now s) = CAL_RUNNING
    \<and> move_task_handle (calib_start_run now s) = None
    \<and> relay_open (calib_start_run now s)
    \<and> \<not> relay_close (calib_start_run now s)
    \<and> relay_trace (calib_start_run now s) = relay_trace s @ [(relay_open s, False), (True, False)]
    \<and> position_state (calib_start_run now s) = 1
    \<and> notified (calib_start_run now s) = notified s @ [(POSITION_STATE, HOMEKIT_UINT8 1)]
    \<and> target_position (calib_start_run now s) = target_position s"
  using assms by (simp add: btn_open_callback_def calib_start_run_def relay_defs Let_def)

theorem calib_start_run_effects_witness:
  "calib_state (calib_armed_state nvs_blank) = CAL_ARMED
   \<and> calib_state (btn_open_callback 777 button_event_single_press (calib_armed_state nvs_blank))
       = CAL_RUNNING
   \<and> calib_start_us (btn_open_callback 777 button_event_single_press (calib_armed_state nvs_blank))
       = 777
   \<and> relay_open (btn_open_callback 777 button_event_single_press (calib_armed_state nvs_blank))
   \<and> target_position (btn_open_callback 777 button_event_single_press (calib_armed_state nvs_blank))
       = 0"
proof -
  have a: "calib_state (calib_armed_state nvs_blank) = CAL_ARMED"
    by (rule armed_fields)
  have t: "target_position (calib_armed_state nvs_blank) = 0"
    by (simp add: calib_armed_state_def calib_enter_def app_main_fields relay_defs)
  show ?thesis using a t calib_start_run_effects [OF a, of 777] by simp
qed

text \<open>
  C3, as the code has it. A stop event in phase Running, with \<open>elapsed\<close> the microseconds
  since the start timestamp:
  \<^item> below 3000000 (3000 ms) the in-memory duration and the storage stay as they were and the
    phase is Idle again;
  \<^item> from 3000000 on, and while the milliseconds fit the 32-bit duration: when the namespace
    opens and both writes succeed, the in-memory duration and the stored duration are the
    elapsed milliseconds, the position is 100 (internal and published), position state 2
    (stopped) is set and notified and the phase is Idle again;
  \<^item> when the namespace does not open, the storage stays as it was while everything else
    happens as in the previous case;
  \<^item> when the namespace opens and the write or the commit fails, \<^verbatim>\<open>ESP_ERROR_CHECK\<close> aborts
    the firmware: the call does not return, and none of the updates of position, position
    state and phase is made.
\<close>

theorem calib_finish_on_stop_outcome:
  assumes "calib_state s = CAL_RUNNING"
  shows "(calib_elapsed now s < 3000000 \<longrightarrow>
           (\<exists>s'. calib_finish_on_stop now s = Inr s' \<and> full_travel_ms s' = full_travel_ms s
                 \<and> nvs s' = nvs s \<and> calib_state s' = CAL_IDLE))
       \<and> (3000000 \<le> calib_elapsed now s \<and> calib_elapsed now s div 1000 < 2 ^ 32
           \<and> nvs_open_err (nvs s) NVS_READWRITE = ESP_OK
           \<and> nvs_set_err (nvs s) = ESP_OK \<and> nvs_commit_err (nvs s) = ESP_OK \<longrightarrow>
           (\<exists>s'. calib_finish_on_stop now s = Inr s'
                 \<and> uint (full_travel_ms s') = calib_elapsed now s div 1000
                 \<and> nvs_entries (nvs s') (''sunshade'', ''full_ms'') = Some (full_travel_ms s')
                 \<and> pos_f s' = 100 \<and> current_position s' = 100 \<and> position_state s' = 2
                 \<and> notified s' = notified s @ [(CURRENT_POSITION, HOMEKIT_UINT8 100),
                                                 (POSITION_STATE, HOMEKIT_UINT8 2)]
                 \<and> calib_state s' = CAL_IDLE))
       \<and> (3000000 \<le> calib_elapsed now s \<and> calib_elapsed now s div 1000 < 2 ^ 32
           \<and> nvs_open_err (nvs s) NVS_READWRITE \<noteq> ESP_OK \<longrightarrow>
           (\<exists>s'. calib_finish_on_stop now s = Inr s'
                 \<and> uint (full_travel_ms s') = calib_elapsed now s div 1000
                 \<and> nvs s' = nvs s
                 \<and> pos_f s' = 100 \<and> current_position s' = 100 \<and> position_state s' = 2
                 \<and> notified s' = notified s @ [(CURRENT_POSITION, HOMEKIT_UINT8 100),
                                                 (POSITION_STATE, HOMEKIT_UINT8 2)]
                 \<and> calib_state s' = CAL_IDLE))
       \<and> (3000000 \<le> calib_elapsed now s
           \<and> nvs_open_err (nvs s) NVS_READWRITE = ESP_OK \<and> nvs_set_err (nvs s) \<noteq> ESP_OK \<longrightarrow>
           calib_finish_on_stop now s = Inl (ESP_ERROR_CHECK_failed (nvs_set_err (nvs s))))
       \<and> (3000000 \<le> calib_elapsed now s
           \<and> nvs_open_err (nvs s) NVS_READWRITE = ESP_OK \<and> nvs_set_err (nvs s) = ESP_OK
           \<and> nvs_commit_err (nvs s) \<noteq> ESP_OK \<longrightarrow>
           calib_finish_on_stop now s = Inl (ESP_ERROR_CHECK_failed (nvs_commit_err (nvs s))))"
proof -
  have u: "uint (word_of_int (calib_elapsed now s div 1000) :: uint32_t)
             = calib_elapsed now s div 1000"
    if "3000000 \<le> calib_elapsed now s" "calib_elapsed now s div 1000 < 2 ^ 32"
    using that by (simp add: uint_word_of_int take_bit_int_eq_self)
  have e: "calib_elapsed now (motor_all_off s) = calib_elapsed now s"
    by (simp add: calib_elapsed_def relay_defs)
  show ?thesis
    unfolding calib_finish_on_stop_def Let_def e
    using assms u
    by (auto simp add: calib_cancel_def calib_save_def relay_defs Let_def)
qed

text \<open>A run stopped after 12000 ms is stored; a run stopped after 1800 ms is dropped; a run
  of 12000 ms whose write or commit fails ends in the abort.\<close>

theorem calib_finish_on_stop_outcome_witness:
  "calib_state (calib_running_state nvs_blank) = CAL_RUNNING
   \<and> calib_elapsed 12000000 (calib_running_state nvs_blank) = 12000000
   \<and> (\<exists>s'. calib_finish_on_stop 12000000 (calib_running_state nvs_blank) = Inr s'
         \<and> uint (full_travel_ms s') = 12000
         \<and> nvs_entries (nvs s') (''sunshade'', ''full_ms'') = Some (full_travel_ms s')
         \<and> pos_f s' = 100 \<and> calib_state s' = CAL_IDLE)
   \<and> calib_elapsed 1800000 (calib_running_state nvs_blank) = 1800000
   \<and> (\<exists>s'. calib_finish_on_stop 1800000 (calib_running_state nvs_blank) = Inr s'
         \<and> full_travel_ms s' = full_travel_ms (calib_running_state nvs_blank)
         \<and> nvs s' = nvs_blank \<and> calib_state s' = CAL_IDLE)
   \<and> calib_state (calib_running_state nvs_write_fails) = CAL_RUNNING
   \<and> calib_elapsed 12000000 (calib_running_state nvs_write_fails) = 12000000
   \<and> calib_finish_on_stop 12000000 (calib_running_state nvs_write_fails)
       = Inl (ESP_ERROR_CHECK_failed ESP_FAIL)
   \<and> calib_state (calib_running_state nvs_commit_fails) = CAL_RUNNING
   \<and> calib_elapsed 12000000 (calib_running_state nvs_commit_fails) = 12000000
   \<and> calib_finish_on_stop 12000000 (calib_running_state nvs_commit_fails)
       = Inl (ESP_ERROR_CHECK_failed ESP_FAIL)"
proof -
  have r: "calib_state (calib_running_state nvs_blank) = CAL_RUNNING"
    and r': "calib_state (calib_running_state nvs_write_fails) = CAL_RUNNING"
    and r'': "calib_state (calib_running_state nvs_commit_fails) = CAL_RUNNING"
    by (rule running_fields)+
  have e1: "calib_elapsed 12000000 (calib_running_state nvs_blank) = 12000000"
    and e2: "calib_elapsed 1800000 (calib_running_state nvs_blank) = 1800000"
    and e3: "calib_elapsed 12000000 (calib_running_state nvs_write_fails) = 12000000"
    and e4: "calib_elapsed 12000000 (calib_running_state nvs_commit_fails) = 12000000"
    by (simp_all add: calib_elapsed_def running_fields)
  have n: "nvs_open_err nvs_blank NVS_READWRITE = ESP_OK" "nvs_set_err nvs_blank = ESP_OK"
    "nvs_commit_err nvs_blank = ESP_OK"
    by (simp_all add: nvs_blank_def)
  have n': "nvs_open_err nvs_write_fails NVS_READWRITE = ESP_OK"
    "nvs_set_err nvs_write_fails = ESP_FAIL"
    by (simp_all add: nvs_write_fails_def nvs_blank_def)
  have n'': "nvs_open_err nvs_commit_fails NVS_READWRITE = ESP_OK"
    "nvs_set_err nvs_commit_fails = ESP_OK" "nvs_commit_err nvs_commit_fails = ESP_FAIL"
    by (simp_all add: nvs_commit_fails_def nvs_blank_def)
  show ?thesis
    using calib_finish_on_stop_outcome [OF r, of 12000000]
      calib_finish_on_stop_outcome [OF r, of 1800000]
      calib_finish_on_stop_outcome [OF r', of 12000000]
      calib_finish_on_stop_outcome [OF r'', of 12000000] e1 e2 e3 e4 n n' n'' r' r''
    by (auto simp add: running_fields)
qed

text \<open>
  C3 as stated fails three times. A run of 12000 ms whose namespace cannot be opened for
  writing sets the in-memory duration to 12000 and stores nothing. A run of 12000 ms whose
  write fails after the namespace opened ends in the abort: no state is returned. A run of
  4294967296 ms is at least 3000 ms long and sets the in-memory duration to 0.
\<close>

theorem calib_finish_not_always_elapsed_ms:
  "3000000 \<le> calib_elapsed 12000000 (calib_running_state nvs_readonly)
   \<and> \<not> isl (calib_finish_on_stop 12000000 (calib_running_state nvs_readonly))
   \<and> full_travel_ms (projr (calib_finish_on_stop 12000000 (calib_running_state nvs_readonly)))
       = 12000
   \<and> nvs_entries (nvs (projr (calib_finish_on_stop 12000000 (calib_running_state nvs_readonly))))
        (''sunshade'', ''full_ms'') = None
   \<and> 3000000 \<le> calib_elapsed 12000000 (calib_running_state nvs_write_fails)
   \<and> isl (calib_finish_on_stop 12000000 (calib_running_state nvs_write_fails))
   \<and> calib_elapsed 4294967296000 (calib_running_state nvs_blank) = 4294967296000
   \<and> \<not> isl (calib_finish_on_stop 4294967296000 (calib_running_state nvs_blank))
   \<and> full_travel_ms (projr (calib_finish_on_stop 4294967296000 (calib_running_state nvs_blank)))
       = 0"
  by (simp add: calib_finish_on_stop_def calib_save_def calib_elapsed_def running_fields Let_def
      nvs_readonly_def nvs_write_fails_def nvs_blank_def relay_defs)

text \<open>The duration that start-up leaves in memory is within 3000..120000.\<close>

lemma app_main_full_travel_ms_valid:
  "3000 \<le> full_travel_ms (app_main nv) \<and> full_travel_ms (app_main nv) \<le> 120000"
  by (auto simp add: app_main_def calib_load_def nvs_get_u32_def static_init_def
      gpio_init_motor_def relay_defs Let_def FULL_TRAVEL_MS_DEFAULT_def
      split: option.splits if_splits)

text \<open>
  C4 fails on the code at a calibration run of 130 s: \<^verbatim>\<open>calib_finish_on_stop\<close> checks only
  the lower bound, so the in-memory duration becomes 130000, above 120000. The same value is
  written to storage, where \<^verbatim>\<open>calib_load\<close> rejects it at the next start-up and the default
  is used again.
\<close>

theorem calib_finish_exceeds_valid_range:
  "calib_state (calib_running_state nvs_blank) = CAL_RUNNING
   \<and> \<not> isl (calib_finish_on_stop 130000000 (calib_running_state nvs_blank))
   \<and> full_travel_ms (projr (calib_finish_on_stop 130000000 (calib_running_state nvs_blank)))
       = 130000
   \<and> \<not> full_travel_ms (projr (calib_finish_on_stop 130000000 (calib_running_state nvs_blank)))
         \<le> 120000
   \<and> nvs_entries (nvs (projr (calib_finish_on_stop 130000000 (calib_running_state nvs_blank))))
        (''sunshade'', ''full_ms'') = Some 130000
   \<and> full_travel_ms
        (app_main (nvs (projr (calib_finish_on_stop 130000000 (calib_running_state nvs_blank)))))
        = FULL_TRAVEL_MS_DEFAULT"
  by (simp add: calib_finish_on_stop_def calib_save_def calib_elapsed_def running_fields Let_def
      nvs_blank_def app_main_def calib_load_def nvs_get_u32_def static_init_def gpio_init_motor_def
      relay_defs)

section \<open>Commands during calibration\<close>

text \<open>
  C2, as the code has it. While the calibration phase is Armed or Running, a single press on
  CLOSE and a double press on STOP return the state as it is: no task is created and no relay
  is written. A single press on OPEN does the same in phase Running; in phase Armed it creates
  no movement task (it starts the calibration run).
\<close>

theorem calibration_suppresses_buttons:
  assumes "calib_state s \<noteq> CAL_IDLE"
  shows "btn_close_callback button_event_single_press s = s
       \<and> btn_stop_callback now button_event_double_press s = Inr s
       \<and> (calib_state s = CAL_RUNNING \<longrightarrow> btn_open_callback now button_event_single_press s = s)
       \<and> (calib_state s = CAL_ARMED \<longrightarrow>
            move_task_handle (btn_open_callback now button_event_single_press s) = None)"
  using assms
  by (simp add: btn_close_callback_def btn_stop_callback_def btn_open_callback_def
      calib_start_run_def relay_defs Let_def)

theorem calibration_suppresses_buttons_witness:
  "calib_state (calib_running_state nvs_blank) = CAL_RUNNING
   \<and> btn_close_callback button_event_single_press (calib_running_state nvs_blank)
       = calib_running_state nvs_blank
   \<and> btn_stop_callback 5 button_event_double_press (calib_running_state nvs_blank)
       = Inr (calib_running_state nvs_blank)
   \<and> btn_open_callback 5 button_event_single_press (calib_running_state nvs_blank)
       = calib_running_state nvs_blank
   \<and> calib_state (calib_armed_state nvs_blank) = CAL_ARMED
   \<and> btn_close_callback button_event_single_press (calib_armed_state nvs_blank)
       = calib_armed_state nvs_blank
   \<and> move_task_handle (btn_open_callback 5 button_event_single_press (calib_armed_state nvs_blank))
       = None"
  using calibration_suppresses_buttons [of "calib_running_state nvs_blank" 5]
    calibration_suppresses_buttons [of "calib_armed_state nvs_blank" 5]
  by (simp add: running_fields armed_fields)

text \<open>
  C2 as stated fails twice. In phase Armed a single press on OPEN writes the relays (close
  off, open on). In phase Running \<^verbatim>\<open>target_position_set\<close>, which does not read
  \<open>calib_state\<close>, writes both relays off, which ends the forced opening, and creates a
  movement task, while the phase stays Running.
\<close>

theorem commands_during_calibration_write_relays:
  "calib_state (calib_armed_state nvs_blank) = CAL_ARMED
   \<and> \<not> relay_open (calib_armed_state nvs_blank)
   \<and> relay_open (btn_open_callback 0 button_event_single_press (calib_armed_state nvs_blank))
   \<and> relay_trace (btn_open_callback 0 button_event_single_press (calib_armed_state nvs_blank))
       = relay_trace (calib_armed_state nvs_blank) @ [(False, False), (True, False)]
   \<and> calib_state (calib_running_state nvs_blank) = CAL_RUNNING
   \<and> relay_open (calib_running_state nvs_blank)
   \<and> \<not> relay_open (target_position_set (HOMEKIT_UINT8 50) (calib_running_state nvs_blank))
   \<and> relay_trace (target_position_set (HOMEKIT_UINT8 50) (calib_running_state nvs_blank))
       = relay_trace (calib_running_state nvs_blank) @ [(False, False), (False, False)]
   \<and> move_task_handle (target_position_set (HOMEKIT_UINT8 50) (calib_running_state nvs_blank))
       = Some \<lparr>task_tgt = 50, task_pc = MOVE_ENTRY\<rparr>
   \<and> calib_state (target_position_set (HOMEKIT_UINT8 50) (calib_running_state nvs_blank))
       = CAL_RUNNING"
  by (simp add: fixture_defs calib_defs relay_defs move_defs Let_def)

section \<open>Targets and setters\<close>

text \<open>
  C5, as the code has it. When the target equals the internal position truncated to an
  integer, \<^verbatim>\<open>(uint8_t)pos_f\<close>, \<^verbatim>\<open>start_move_to\<close> leaves no movement task, writes both
  relays off and nothing else, sets and notifies position state 2 (stopped) and keeps the
  position; the same holds when the target arrives through \<^verbatim>\<open>target_position_set\<close>, which
  also notifies the target.
\<close>

theorem no_op_on_truncated_position:
  assumes "t = u8_of_float (pos_f s)"
  shows "move_task_handle (start_move_to t s) = None
       \<and> relay_trace (start_move_to t s) = relay_trace s @ [(False, relay_close s), (False, False)]
       \<and> \<not> relay_open (start_move_to t s) \<and> \<not> relay_close (start_move_to t s)
       \<and> position_state (start_move_to t s) = 2
       \<and> notified (start_move_to t s) = notified s @ [(POSITION_STATE, HOMEKIT_UINT8 2)]
       \<and> pos_f (start_move_to t s) = pos_f s
       \<and> move_task_handle (target_position_set (HOMEKIT_UINT8 t) s) = None
       \<and> relay_trace (target_position_set (HOMEKIT_UINT8 t) s)
           = relay_trace s @ [(False, relay_close s), (False, False)]
       \<and> position_state (target_position_set (HOMEKIT_UINT8 t) s) = 2
       \<and> notified (target_position_set (HOMEKIT_UINT8 t) s)
           = notified s @ [(POSITION_STATE, HOMEKIT_UINT8 2), (TARGET_POSITION, HOMEKIT_UINT8 t)]"
  using assms
  by (simp add: start_move_to_def target_position_set_def relay_defs Let_def)

text \<open>At position 0.5 (published as 1) the target 0 is the one that starts nothing.\<close>

theorem no_op_on_truncated_position_witness:
  "u8_of_float (pos_f half_open_state) = 0
   \<and> move_task_handle (target_position_set (HOMEKIT_UINT8 0) half_open_state) = None
   \<and> position_state (target_position_set (HOMEKIT_UINT8 0) half_open_state) = 2
   \<and> \<not> relay_open (start_move_to 0 half_open_state)
   \<and> \<not> relay_close (start_move_to 0 half_open_state)"
proof -
  have h: "0 = u8_of_float (pos_f half_open_state)"
    by (simp add: half_open_fields u8_of_float_def floor_rat_one_div)
  show ?thesis using no_op_on_truncated_position [OF h] h by simp
qed

text \<open>
  C5 as stated fails at position 0.5: the published position and the round-half-up value are
  both 1, and target 1 creates a movement task whose first run energizes the open relay.
\<close>

theorem target_at_rounded_position_moves:
  "current_position half_open_state = 1
   \<and> u8_of_float (pos_f half_open_state + 1 / 2) = 1
   \<and> move_task_handle (target_position_set (HOMEKIT_UINT8 1) half_open_state)
        = Some \<lparr>task_tgt = 1, task_pc = MOVE_ENTRY\<rparr>
   \<and> relay_open (move_task_resume (target_position_set (HOMEKIT_UINT8 1) half_open_state))"
proof -
  have "u8_of_float (pos_f half_open_state + 1 / 2) = 1"
    by (simp add: half_open_fields u8_of_float_def)
  moreover have "move_task_handle (target_position_set (HOMEKIT_UINT8 1) half_open_state)
        = Some \<lparr>task_tgt = 1, task_pc = MOVE_ENTRY\<rparr>"
    by (simp add: target_position_set_def start_move_to_def relay_defs Let_def half_open_fields
        u8_of_float_def floor_rat_one_div)
  moreover have "relay_open (move_task_resume (target_position_set (HOMEKIT_UINT8 1) half_open_state))"
    by (simp add: move_defs relay_defs Let_def half_open_fields fl32_numeral fl32_numeral_half
        floor_rat_one_div floor_rat_numeral_div)
  ultimately show ?thesis by (simp add: half_open_fields)
qed

text \<open>
  C8, as the code has it. A value that is not of format uint8 leaves the state as it is in
  \<^verbatim>\<open>target_position_set\<close>, and a value that is not of format bool does so in
  \<^verbatim>\<open>hold_position_set\<close>: nothing changes and nothing is notified. In
  \<^verbatim>\<open>hk_recal_switch_set\<close> a value that is not of format bool causes no calibration
  transition, but the switch is still set to false and that value is notified.
\<close>

theorem wrong_format_handling:
  "((\<forall>t. v \<noteq> HOMEKIT_UINT8 t) \<longrightarrow> target_position_set v s = s)
   \<and> ((\<forall>b. v \<noteq> HOMEKIT_BOOL b) \<longrightarrow> hold_position_set v s = s)
   \<and> ((\<forall>b. v \<noteq> HOMEKIT_BOOL b) \<longrightarrow>
        hk_recal_switch_set v s
          = s\<lparr>recalibrate_switch := False,
               notified := notified s @ [(RECALIBRATE_SWITCH, HOMEKIT_BOOL False)]\<rparr>)"
  by (cases v)
     (auto simp add: target_position_set_def hold_position_set_def hk_recal_switch_set_def
        homekit_characteristic_notify_def Let_def)

theorem wrong_format_handling_witness:
  "target_position_set (HOMEKIT_INT 7) (app_main nvs_blank) = app_main nvs_blank
   \<and> target_position_set (HOMEKIT_BOOL True) (app_main nvs_blank) = app_main nvs_blank
   \<and> hold_position_set (HOMEKIT_INT 7) (app_main nvs_blank) = app_main nvs_blank
   \<and> calib_state (hk_recal_switch_set (HOMEKIT_INT 7) (app_main nvs_blank)) = CAL_IDLE"
  using wrong_format_handling [of "HOMEKIT_INT 7" "app_main nvs_blank"]
    wrong_format_handling [of "HOMEKIT_BOOL True" "app_main nvs_blank"]
  by (simp add: app_main_fields)

text \<open>C8 as stated fails for the recalibrate switch: a uint8 value is answered with a
  notification.\<close>

theorem recalibrate_wrong_format_notifies:
  "notified (hk_recal_switch_set (HOMEKIT_UINT8 1) (app_main nvs_blank))
     = notified (app_main nvs_blank) @ [(RECALIBRATE_SWITCH, HOMEKIT_BOOL False)]"
  by (simp add: hk_recal_switch_set_def homekit_characteristic_notify_def Let_def)

section \<open>Momentary characteristics\<close>

lemma relay_write_momentary [simp]:
  "hold_position (relay_write p b s) = hold_position s"
  "recalibrate_switch (relay_write p b s) = recalibrate_switch s"
  by (cases p; simp add: relay_write_def Let_def)+

lemma motor_momentary [simp]:
  "hold_position (motor_all_off s) = hold_position s"
  "recalibrate_switch (motor_all_off s) = recalibrate_switch s"
  "hold_position (motor_drive_open b s) = hold_position s"
  "recalibrate_switch (motor_drive_open b s) = recalibrate_switch s"
  "hold_position (motor_drive_close b s) = hold_position s"
  "recalibrate_switch (motor_drive_close b s) = recalibrate_switch s"
  by (simp_all add: motor_all_off_def motor_drive_open_def motor_drive_close_def)

lemma notify_momentary [simp]:
  "hold_position (homekit_characteristic_notify c v s) = hold_position s"
  "recalibrate_switch (homekit_characteristic_notify c v s) = recalibrate_switch s"
  by (simp_all add: homekit_characteristic_notify_def)

lemma start_move_to_momentary [simp]:
  "hold_position (start_move_to t s) = hold_position s"
  "recalibrate_switch (start_move_to t s) = recalibrate_switch s"
  by (simp_all add: start_move_to_def Let_def)

lemma finish_momentary [simp]:
  "hold_position (move_task_finish t s) = hold_position s"
  "recalibrate_switch (move_task_finish t s) = recalibrate_switch s"
  by (simp_all add: move_task_finish_def Let_def)

lemma loops_momentary [simp]:
  "hold_position (open_loop t st s) = hold_position s"
  "recalibrate_switch (open_loop t st s) = recalibrate_switch s"
  "hold_position (close_loop t st s) = hold_position s"
  "recalibrate_switch (close_loop t st s) = recalibrate_switch s"
  by (simp_all add: open_loop_def close_loop_def open_tick_def close_tick_def
      publish_position_def Let_def)

lemma resume_momentary [simp]:
  "hold_position (move_task_resume s) = hold_position s"
  "recalibrate_switch (move_task_resume s) = recalibrate_switch s"
  by (simp_all add: move_task_resume_def move_task_entry_def Let_def
      split: option.splits move_pc.splits)

lemma calib_momentary [simp]:
  "hold_position (calib_enter s) = hold_position s"
  "recalibrate_switch (calib_enter s) = recalibrate_switch s"
  "hold_position (calib_cancel s) = hold_position s"
  "recalibrate_switch (calib_cancel s) = recalibrate_switch s"
  "hold_position (calib_start_run now s) = hold_position s"
  "recalibrate_switch (calib_start_run now s) = recalibrate_switch s"
  by (simp_all add: calib_enter_def calib_cancel_def calib_start_run_def Let_def)

lemma pieces_momentary [simp]:
  "hold_position (calib_start_run_head now s) = hold_position s"
  "recalibrate_switch (calib_start_run_head now s) = recalibrate_switch s"
  "hold_position (calib_start_run_tail s) = hold_position s"
  "recalibrate_switch (calib_start_run_tail s) = recalibrate_switch s"
  by (simp_all add: calib_start_run_head_def calib_start_run_tail_def Let_def)

lemma calib_finish_momentary:
  "calib_finish_on_stop now s = Inr s' \<Longrightarrow>
   hold_position s' = hold_position s \<and> recalibrate_switch s' = recalibrate_switch s"
  by (auto simp add: calib_finish_on_stop_def Let_def split: if_splits sum.splits prod.splits)

lemma hold_set_clear: "momentary_clear s \<Longrightarrow> momentary_clear (hold_position_set v s)"
  by (cases v) (simp_all add: hold_position_set_def momentary_clear_def Let_def)

lemma recal_set_clear: "momentary_clear s \<Longrightarrow> momentary_clear (hk_recal_switch_set v s)"
  by (simp add: hk_recal_switch_set_def momentary_clear_def Let_def)

lemma momentary_dispatch:
  "momentary_clear s \<Longrightarrow> dispatch te s = Inr s' \<Longrightarrow> momentary_clear s'"
proof (cases te)
  case (Pair now ev)
  assume m: "momentary_clear s" and d: "dispatch te s = Inr s'"
  show ?thesis
  proof (cases ev)
    case (Set_target v)
    with Pair m d show ?thesis
      by (cases v)
         (auto simp add: dispatch_def target_position_set_def momentary_clear_def Let_def)
  next
    case (Set_hold v)
    with Pair m d show ?thesis by (auto simp add: dispatch_def hold_set_clear)
  next
    case (Set_recalibrate v)
    with Pair m d show ?thesis by (auto simp add: dispatch_def recal_set_clear)
  next
    case (Btn_open e)
    with Pair m d show ?thesis
      by (auto simp add: dispatch_def btn_open_callback_def start_move_open_def
          momentary_clear_def split: if_splits)
  next
    case (Btn_close e)
    with Pair m d show ?thesis
      by (auto simp add: dispatch_def btn_close_callback_def start_move_close_def
          momentary_clear_def split: if_splits)
  next
    case (Btn_stop e)
    with Pair m d show ?thesis
      using hold_set_clear [OF m, of "HOMEKIT_BOOL True"]
      by (cases e)
         (auto simp add: dispatch_def btn_stop_callback_def start_move_mid_def momentary_clear_def
            dest: calib_finish_momentary split: if_splits)
  next
    case Task_runs
    with Pair m d show ?thesis by (auto simp add: dispatch_def momentary_clear_def)
  next
    case (Btn_open_cut e)
    with Pair m d show ?thesis
      by (auto simp add: dispatch_def btn_open_callback_head_def start_move_open_def
          momentary_clear_def split: if_splits)
  next
    case Btn_open_rest
    with Pair m d show ?thesis by (auto simp add: dispatch_def momentary_clear_def)
  qed
qed

lemma momentary_app_main: "momentary_clear (app_main nv)"
  by (simp add: momentary_clear_def app_main_def static_init_def gpio_init_motor_def Let_def
      split: sum.splits)

lemma momentary_run:
  assumes "run tes (app_main nv) = Inr s"
  shows "momentary_clear s"
proof (rule run_invariant [where Q = "\<lambda>te. True" and P = momentary_clear])
  show "momentary_clear s'" if "momentary_clear s" "dispatch te s = Inr s'" for te s s'
    using that by (rule momentary_dispatch)
  show "list_all (\<lambda>te. True) tes" by (simp add: list_all_iff)
  show "momentary_clear (app_main nv)" by (rule momentary_app_main)
  show "run tes (app_main nv) = Inr s" by (rule assms)
qed

text \<open>
  C7. In every state the device reaches from start-up, after \<^verbatim>\<open>hold_position_set\<close> the hold
  characteristic is false and after \<^verbatim>\<open>hk_recal_switch_set\<close> the recalibrate switch is false,
  for every value received and whatever the call did besides; the last notification of the
  call is that false value (for the hold characteristic: when the value has format bool; any
  other format is dropped without a notification and the value stays false).
\<close>

theorem momentary_values_reset:
  assumes "run tes (app_main nv) = Inr s"
  shows "\<not> hold_position (hold_position_set v s)
       \<and> \<not> recalibrate_switch (hk_recal_switch_set v s)
       \<and> (\<forall>b. v = HOMEKIT_BOOL b \<longrightarrow>
            last (notified (hold_position_set v s)) = (HOLD_POSITION, HOMEKIT_BOOL False))
       \<and> last (notified (hk_recal_switch_set v s)) = (RECALIBRATE_SWITCH, HOMEKIT_BOOL False)"
proof -
  from assms have m: "momentary_clear s" by (rule momentary_run)
  have "momentary_clear (hold_position_set v s)" using m by (rule hold_set_clear)
  moreover have "momentary_clear (hk_recal_switch_set v s)" using m by (rule recal_set_clear)
  moreover have "last (notified (hold_position_set (HOMEKIT_BOOL b) s))
      = (HOLD_POSITION, HOMEKIT_BOOL False)" for b
    by (simp add: hold_position_set_def homekit_characteristic_notify_def Let_def)
  moreover have "last (notified (hk_recal_switch_set v s))
      = (RECALIBRATE_SWITCH, HOMEKIT_BOOL False)"
    by (simp add: hk_recal_switch_set_def homekit_characteristic_notify_def Let_def)
  ultimately show ?thesis by (auto simp add: momentary_clear_def)
qed

theorem momentary_values_reset_witness:
  "run reversal_events (app_main nvs_blank) = Inr reversal_state
   \<and> \<not> hold_position (hold_position_set (HOMEKIT_BOOL True) reversal_state)
   \<and> \<not> recalibrate_switch (hk_recal_switch_set (HOMEKIT_BOOL True) reversal_state)
   \<and> last (notified (hold_position_set (HOMEKIT_BOOL True) reversal_state))
       = (HOLD_POSITION, HOMEKIT_BOOL False)
   \<and> last (notified (hk_recal_switch_set (HOMEKIT_BOOL True) reversal_state))
       = (RECALIBRATE_SWITCH, HOMEKIT_BOOL False)"
  using momentary_values_reset [OF reversal_run, of "HOMEKIT_BOOL True"] reversal_run by auto

section \<open>The movement task\<close>

text \<open>
  C10. While a movement task is in one of its loops, a hold request (value true) sets position
  state 2; at its next resumption the task leaves the loop and runs its exit path, which sets
  the internal position to the task's target and publishes that target as current position
  (with a notification when the published value changes), wherever the motion stopped.
\<close>

theorem hold_mid_travel_snaps_to_target:
  assumes "move_task_handle s = Some t" and "task_pc t \<noteq> MOVE_ENTRY"
  shows "pos_f (move_task_resume (hold_position_set (HOMEKIT_BOOL True) s))
           = float_of_u8 (task_tgt t)
       \<and> current_position (move_task_resume (hold_position_set (HOMEKIT_BOOL True) s))
           = task_tgt t
       \<and> position_state (move_task_resume (hold_position_set (HOMEKIT_BOOL True) s)) = 2
       \<and> move_task_handle (move_task_resume (hold_position_set (HOMEKIT_BOOL True) s)) = None
       \<and> (current_position s \<noteq> task_tgt t \<longrightarrow>
            last (notified (move_task_resume (hold_position_set (HOMEKIT_BOOL True) s)))
              = (CURRENT_POSITION, HOMEKIT_UINT8 (task_tgt t)))"
proof -
  let ?h = "hold_position_set (HOMEKIT_BOOL True) s"
  have h: "move_task_handle ?h = Some t" "position_state ?h = 2"
    "current_position ?h = current_position s"
    using assms by (simp_all add: hold_position_set_def relay_defs Let_def)
  have r: "move_task_resume ?h = move_task_finish (task_tgt t) ?h"
    using assms(2) h
    by (cases "task_pc t") (simp_all add: move_task_resume_def open_loop_def close_loop_def)
  show ?thesis
    unfolding r using h
    by (simp add: move_task_finish_def relay_defs Let_def)
qed

subsection \<open>Ticks in single precision\<close>


lemma move_step_10000: "move_step 10000 = Step 1"
  by (simp add: move_step_def float_of_u32_def MOVE_TICK_MS_def fl32_numeral)


text \<open>One pass through the opening loop.\<close>

lemma open_loop_tick:
  assumes "pos_f s < float_of_u8 tgt" and "position_state s = 1"
    and "fl32 (pos_f s + d) = p" and "p \<le> 100"
  shows "pos_f (open_loop tgt (Step d) s) = p"
    and "position_state (open_loop tgt (Step d) s) = 1"
    and "relay_open (open_loop tgt (Step d) s) = relay_open s"
    and "relay_close (open_loop tgt (Step d) s) = relay_close s"
    and "current_position (open_loop tgt (Step d) s) = u8_of_float (fl32 (p + 1 / 2))"
    and "move_task_handle (open_loop tgt (Step d) s)
           = Some \<lparr>task_tgt = tgt, task_pc = MOVE_OPENING (Step d)\<rparr>"
  using assms
  by (simp_all add: open_loop_def open_tick_def publish_position_def
      homekit_characteristic_notify_def Let_def)

lemma open_loop_unit_step:
  assumes "pos_f s = of_nat k" and "k < 100" and "position_state s = 1"
  shows "pos_f (open_loop 100 (Step 1) s) = of_nat (Suc k)"
    and "position_state (open_loop 100 (Step 1) s) = 1"
    and "relay_open (open_loop 100 (Step 1) s) = relay_open s"
    and "relay_close (open_loop 100 (Step 1) s) = relay_close s"
    and "current_position (open_loop 100 (Step 1) s) = of_nat (Suc k)"
    and "move_task_handle (open_loop 100 (Step 1) s)
           = Some \<lparr>task_tgt = 100, task_pc = MOVE_OPENING (Step 1)\<rparr>"
proof -
  have lt: "pos_f s < float_of_u8 100" using assms by (simp add: float_of_u8_def)
  have "Suc k < 2 ^ 24" using assms(2) by simp
  from fl32_of_nat [OF this] have p: "fl32 (pos_f s + 1) = of_nat (Suc k)"
    using assms(1) by (simp add: add.commute)
  have le: "(of_nat (Suc k) :: rat) \<le> 100" using assms(2) by simp
  have "Suc k < 2 ^ 23" using assms(2) by simp
  from u8_of_float_half [OF this]
  have cp: "u8_of_float (fl32 (of_nat (Suc k) + 1 / 2)) = of_nat (Suc k)" .
  note t = open_loop_tick [OF lt assms(3) p le]
  show "pos_f (open_loop 100 (Step 1) s) = of_nat (Suc k)"
    and "position_state (open_loop 100 (Step 1) s) = 1"
    and "relay_open (open_loop 100 (Step 1) s) = relay_open s"
    and "relay_close (open_loop 100 (Step 1) s) = relay_close s"
    and "current_position (open_loop 100 (Step 1) s) = of_nat (Suc k)"
    and "move_task_handle (open_loop 100 (Step 1) s)
           = Some \<lparr>task_tgt = 100, task_pc = MOVE_OPENING (Step 1)\<rparr>"
    using t cp by simp_all
qed

text \<open>The first piece of a task that opens from position 0.\<close>

lemma entry_opening:
  assumes "pos_f s = 0" and "tgt \<noteq> 0" and "move_step (full_travel_ms s) = Step d"
  shows "move_task_resume (start_move_to tgt s)
           = open_loop tgt (Step d)
               (motor_drive_open True
                 ((homekit_characteristic_notify POSITION_STATE (HOMEKIT_UINT8 1)
                    ((start_move_to tgt s)\<lparr>position_state := 1\<rparr>))\<lparr>pix_state := PIX_OPENING\<rparr>))"
proof -
  have z: "u8_of_float 0 = 0" by (simp add: u8_of_float_def)
  have h: "move_task_handle (start_move_to tgt s) = Some \<lparr>task_tgt = tgt, task_pc = MOVE_ENTRY\<rparr>"
    "pos_f (start_move_to tgt s) = 0" "full_travel_ms (start_move_to tgt s) = full_travel_ms s"
    using assms(1,2) by (simp_all add: start_move_to_def relay_defs Let_def z)
  have gt: "tgt > 0" using assms(2) by (simp add: word_greater_zero_iff)
  show ?thesis
    using h gt assms(3) by (simp add: move_task_resume_def move_task_entry_def Let_def z)
qed

lemma first_tick:
  assumes "full_travel_ms s = 10000" and "pos_f s = 0"
  shows "opening_at 1 (move_task_resume (start_move_to 100 s))"
proof -
  let ?s0 = "start_move_to 100 s"
  let ?s1 = "motor_drive_open True
            ((homekit_characteristic_notify POSITION_STATE (HOMEKIT_UINT8 1)
               (?s0\<lparr>position_state := 1\<rparr>))\<lparr>pix_state := PIX_OPENING\<rparr>)"
  have r: "move_task_resume ?s0 = open_loop 100 (Step 1) ?s1"
    using assms by (intro entry_opening) (simp_all add: move_step_10000)
  have "pos_f ?s0 = 0"
    using assms by (simp add: start_move_to_def relay_defs Let_def)
  then have s1: "pos_f ?s1 = of_nat 0" "position_state ?s1 = 1" "relay_open ?s1"
    "\<not> relay_close ?s1"
    by (simp_all add: relay_defs)
  show ?thesis
    unfolding r opening_at_def
    using open_loop_unit_step [of ?s1 0, OF s1(1) _ s1(2)] s1 by simp
qed

lemma next_tick:
  assumes "opening_at k s" and "k < 100"
  shows "opening_at (Suc k) (move_task_resume s)"
proof -
  have r: "move_task_resume s = open_loop 100 (Step 1) s"
    using assms by (simp add: opening_at_def move_task_resume_def)
  show ?thesis
    unfolding r opening_at_def
    using open_loop_unit_step [of s k] assms by (simp add: opening_at_def)
qed

lemma ticks_opening:
  assumes "full_travel_ms s = 10000" and "pos_f s = 0"
  shows "k < 100 \<Longrightarrow> opening_at (Suc k) ((move_task_resume ^^ Suc k) (start_move_to 100 s))"
proof (induction k)
  case 0
  then show ?case using first_tick [OF assms] by simp
next
  case (Suc k)
  then have "opening_at (Suc k) ((move_task_resume ^^ Suc k) (start_move_to 100 s))" by simp
  from next_tick [OF this] Suc.prems show ?case by simp
qed


lemma third_tick_opening: "opening_at 3 third_tick_state"
proof -
  let ?s = "homekit_characteristic_notify TARGET_POSITION (HOMEKIT_UINT8 100)
              ((app_main (nvs_stored 10000))\<lparr>target_position := 100\<rparr>)"
  have s: "start_move_open (app_main (nvs_stored 10000)) = start_move_to 100 ?s"
    by (simp add: start_move_open_def app_main_fields)
  have f: "full_travel_ms ?s = 10000" "pos_f ?s = 0"
    by (simp_all add: homekit_characteristic_notify_def app_main_stored_10000 app_main_fields)
  have "opening_at (Suc 2) ((move_task_resume ^^ Suc 2) (start_move_to 100 ?s))"
    by (rule ticks_opening [OF f]) simp
  then show ?thesis
    by (simp add: third_tick_state_def s eval_nat_numeral)
qed

text \<open>After three ticks towards 100 the position is 3; a hold and the next resumption of the
  task leave position and published position at 100.\<close>

theorem hold_mid_travel_snaps_to_target_witness:
  "move_task_handle third_tick_state = Some \<lparr>task_tgt = 100, task_pc = MOVE_OPENING (Step 1)\<rparr>
   \<and> pos_f third_tick_state = 3
   \<and> current_position third_tick_state = 3
   \<and> pos_f (move_task_resume (hold_position_set (HOMEKIT_BOOL True) third_tick_state)) = 100
   \<and> current_position (move_task_resume (hold_position_set (HOMEKIT_BOOL True) third_tick_state))
       = 100
   \<and> last (notified (move_task_resume (hold_position_set (HOMEKIT_BOOL True) third_tick_state)))
       = (CURRENT_POSITION, HOMEKIT_UINT8 100)"
proof -
  have h: "move_task_handle third_tick_state
             = Some \<lparr>task_tgt = 100, task_pc = MOVE_OPENING (Step 1)\<rparr>"
    and p: "pos_f third_tick_state = 3" "current_position third_tick_state = 3"
    using third_tick_opening by (simp_all add: opening_at_def)
  show ?thesis
    using hold_mid_travel_snaps_to_target [OF h] h p by (simp add: float_of_u8_def)
qed

subsection \<open>Steps that are not representable\<close>


















section \<open>A callback preempted between its two relay writes\<close>

text \<open>The two pieces of the OPEN callback, run one after the other, are the callback.\<close>

lemma btn_open_callback_pieces:
  assumes "\<not> open_callback_suspended s"
  shows "calib_start_run_tail (btn_open_callback_head now e s) = btn_open_callback now e s"
proof -
  have f: "open_callback_suspended (start_move_open s) = open_callback_suspended s"
    by (simp add: start_move_open_def start_move_to_def relay_defs Let_def)
  have u: "s\<lparr>open_callback_suspended := False\<rparr> = s"
    using assms by simp
  show ?thesis
  proof (cases "e = button_event_single_press \<and> calib_state s = CAL_ARMED")
    case True
    then have "calib_start_run_tail (btn_open_callback_head now e s)
        = (calib_start_run now s)\<lparr>open_callback_suspended := False\<rparr>"
      by (simp add: btn_open_callback_head_def calib_start_run_head_def calib_start_run_tail_def
          calib_start_run_def relay_defs Let_def)
    also have "\<dots> = calib_start_run now (s\<lparr>open_callback_suspended := False\<rparr>)"
      by (simp add: calib_start_run_def relay_defs Let_def)
    finally show ?thesis using True by (simp add: u btn_open_callback_def)
  next
    case False
    then show ?thesis
      using assms f
      by (auto simp add: btn_open_callback_head_def btn_open_callback_def calib_start_run_tail_def)
  qed
qed

lemma resume_frame:
  "calib_state (move_task_resume s) = calib_state s"
  "open_callback_suspended (move_task_resume s) = open_callback_suspended s"
  "full_travel_ms (move_task_resume s) = full_travel_ms s"
  by (simp_all add: move_task_resume_def move_task_entry_def open_loop_def close_loop_def
      open_tick_def close_tick_def publish_position_def move_task_finish_def relay_defs Let_def
      split: option.splits move_pc.splits)

lemma start_move_open_frame:
  "calib_state (start_move_open s) = calib_state s"
  "open_callback_suspended (start_move_open s) = open_callback_suspended s"
  "full_travel_ms (start_move_open s) = full_travel_ms s"
  by (simp_all add: start_move_open_def start_move_to_def relay_defs Let_def)

lemma race_open_fields:
  "opening_at 1 (move_task_resume
     (btn_open_callback 0 button_event_single_press (app_main (nvs_stored 10000))))"
  "calib_state (move_task_resume
     (btn_open_callback 0 button_event_single_press (app_main (nvs_stored 10000)))) = CAL_IDLE"
  "\<not> open_callback_suspended (move_task_resume
     (btn_open_callback 0 button_event_single_press (app_main (nvs_stored 10000))))"
  "full_travel_ms (move_task_resume
     (btn_open_callback 0 button_event_single_press (app_main (nvs_stored 10000)))) = 10000"
proof -
  let ?s = "homekit_characteristic_notify TARGET_POSITION (HOMEKIT_UINT8 100)
              ((app_main (nvs_stored 10000))\<lparr>target_position := 100\<rparr>)"
  have b: "btn_open_callback 0 button_event_single_press (app_main (nvs_stored 10000))
      = start_move_open (app_main (nvs_stored 10000))"
    by (simp add: btn_open_callback_def app_main_fields)
  have s: "start_move_open (app_main (nvs_stored 10000)) = start_move_to 100 ?s"
    by (simp add: start_move_open_def app_main_fields)
  have f: "full_travel_ms ?s = 10000" "pos_f ?s = 0"
    by (simp_all add: homekit_characteristic_notify_def app_main_stored_10000 app_main_fields)
  show "opening_at 1 (move_task_resume
     (btn_open_callback 0 button_event_single_press (app_main (nvs_stored 10000))))"
    unfolding b s by (rule first_tick [OF f])
  have i: "\<not> open_callback_suspended (app_main (nvs_stored 10000))"
    by (simp add: fixture_defs relay_defs Let_def)
  show "calib_state (move_task_resume
     (btn_open_callback 0 button_event_single_press (app_main (nvs_stored 10000)))) = CAL_IDLE"
    "\<not> open_callback_suspended (move_task_resume
     (btn_open_callback 0 button_event_single_press (app_main (nvs_stored 10000))))"
    "full_travel_ms (move_task_resume
     (btn_open_callback 0 button_event_single_press (app_main (nvs_stored 10000)))) = 10000"
    unfolding b
    by (simp_all add: resume_frame start_move_open_frame app_main_fields app_main_stored_10000 i)
qed

lemma race_armed_fields:
  "calib_state race_armed_state = CAL_ARMED"
  "pos_f race_armed_state = 1"
  "move_task_handle race_armed_state = Some \<lparr>task_tgt = 100, task_pc = MOVE_OPENING (Step 1)\<rparr>"
  "\<not> relay_open race_armed_state"
  "\<not> relay_close race_armed_state"
  "open_callback_suspended race_armed_state = False"
  "full_travel_ms race_armed_state = 10000"
  "current_position race_armed_state = 1"
  using race_open_fields
  by (simp_all add: race_armed_state_def calib_enter_def opening_at_def relay_defs)

lemma race_run: "run race_events (app_main (nvs_stored 10000)) = Inr race_state"
  using race_open_fields(2)
  by (simp add: race_events_def race_state_def race_armed_state_def dispatch_def
      btn_stop_callback_def)

text \<open>
  C1 fails on the code when the OPEN callback is preempted inside \<^verbatim>\<open>motor_drive_open\<close>.
  The shade is at position 1 and the calibration is armed. OPEN is pressed: the callback
  switches the close relay off (line 110) and is preempted before line 111. The HomeKit
  server sets target 0; \<^verbatim>\<open>start_move_to\<close> creates a movement task, whose first piece switches
  the open relay off and the close relay on. The callback then runs on and switches the open
  relay on: both relays are energized.
\<close>

theorem preempted_open_callback_energizes_both:
  "run race_events (app_main (nvs_stored 10000)) = Inr race_state
   \<and> calib_state race_armed_state = CAL_ARMED
   \<and> pos_f race_armed_state = 1
   \<and> relay_open race_state \<and> relay_close race_state
   \<and> last (relay_trace race_state) = (True, True)"
proof -
  let ?B = "btn_open_callback_head 300000 button_event_single_press race_armed_state"
  let ?C = "target_position_set (HOMEKIT_UINT8 0) ?B"
  let ?D = "move_task_resume ?C"
  have B: "open_callback_suspended ?B" "pos_f ?B = 1" "full_travel_ms ?B = 10000"
    by (simp_all add: btn_open_callback_head_def calib_start_run_head_def race_armed_fields
        relay_defs Let_def)
  have C: "open_callback_suspended ?C" "pos_f ?C = 1" "full_travel_ms ?C = 10000"
    "move_task_handle ?C = Some \<lparr>task_tgt = 0, task_pc = MOVE_ENTRY\<rparr>"
    using B by (simp_all add: target_position_set_def start_move_to_def u8_of_float_def
        relay_defs Let_def)
  have D: "open_callback_suspended ?D" "relay_close ?D"
    using C by (simp_all add: move_task_resume_def move_task_entry_def close_loop_def
        close_tick_def publish_position_def move_step_10000 u8_of_float_def float_of_u8_def
        relay_defs Let_def)
  have "relay_open race_state" "relay_close race_state"
    "last (relay_trace race_state) = (True, True)"
    unfolding race_state_def using D by (simp_all add: calib_start_run_tail_def relay_defs)
  with race_run race_armed_fields(1,2) show ?thesis by simp
qed

end
